theory Spec2Isabelle
  imports Complex_Main
begin

text \<open>
  A verification model of the notebook \<^verbatim>\<open>examples/tf/ReLU Layers.ipynb\<close>: the
  class \<^verbatim>\<open>ReluLayer\<close> (a Keras layer whose forward pass solves a convex program),
  the three-layer sequential model built from it, and the training loop.

  Scalars of the notebook are \<^verbatim>\<open>float64\<close>; they are embedded as \<^typ>\<open>real\<close>, so
  every statement below is about exact arithmetic. Tensors of rank 0 to 3 are nested
  lists. Exceptions are values of the type \<open>error\<close>, returned on the left of a sum.
  The operations of TensorFlow that the notebook calls (\<^verbatim>\<open>tf.rank\<close>, \<^verbatim>\<open>tf.stack\<close>,
  \<^verbatim>\<open>tf.math.reduce_sum\<close>, subtraction, squaring) are modelled in eager execution, as
  the recorded run of the notebook used them.
\<close>

section \<open>Vectors and matrices\<close>

definition dot :: "real list \<Rightarrow> real list \<Rightarrow> real" where
  "dot u v = sum_list (map2 (*) u v)"

text \<open>\<^verbatim>\<open>M @ v\<close> for a matrix (a list of rows) and a vector.\<close>

definition matvec :: "real list list \<Rightarrow> real list \<Rightarrow> real list" where
  "matvec M v = map (\<lambda>r. dot r v) M"

definition vsub :: "real list \<Rightarrow> real list \<Rightarrow> real list" where
  "vsub u v = map2 (-) u v"

definition vadd :: "real list \<Rightarrow> real list \<Rightarrow> real list" where
  "vadd u v = map2 (+) u v"

text \<open>\<^verbatim>\<open>cp.sum_squares\<close>: the sum of the squares of the entries.\<close>

definition sum_squares :: "real list \<Rightarrow> real" where
  "sum_squares v = sum_list (map (\<lambda>t. t\<^sup>2) v)"

text \<open>The elementwise maximum with 0, the function the notebook's first cell names.\<close>

definition relu :: "real list \<Rightarrow> real list" where
  "relu v = map (\<lambda>t. max t 0) v"

definition is_mat :: "nat \<Rightarrow> nat \<Rightarrow> real list list \<Rightarrow> bool" where
  "is_mat n m M \<longleftrightarrow> length M = n \<and> list_all (\<lambda>r. length r = m) M"

section \<open>The convex program of \<^verbatim>\<open>ReluLayer.__init__\<close>\<close>

text \<open>
  \<^verbatim>\<open>
  z = cp.Variable(output_dim)
  Wtilde = cp.Variable((output_dim, input_dim))
  W = cp.Parameter((output_dim, input_dim))
  b = cp.Parameter(output_dim)
  x = cp.Parameter(input_dim)
  problem = cp.Problem(cp.Minimize(
      cp.sum_squares(z - Wtilde @ x - b)), [z >= 0, Wtilde == W])
  \<close>
  Below \<open>m\<close> is \<^verbatim>\<open>input_dim\<close> and \<open>n\<close> is \<^verbatim>\<open>output_dim\<close>.
\<close>

definition objective :: "real list \<Rightarrow> real list list \<Rightarrow> real list \<Rightarrow> real list \<Rightarrow> real" where
  "objective z Wtilde x b = sum_squares (vsub (vsub z (matvec Wtilde x)) b)"

definition constraints :: "real list \<Rightarrow> real list list \<Rightarrow> real list list \<Rightarrow> bool" where
  "constraints z Wtilde W \<longleftrightarrow> list_all (\<lambda>t. 0 \<le> t) z \<and> Wtilde = W"

text \<open>A feasible point: values of the two variables, of the declared shapes, that
  satisfy both constraints.\<close>

definition feasible :: "nat \<Rightarrow> nat \<Rightarrow> real list list \<Rightarrow> real list \<Rightarrow> real list list \<Rightarrow> bool" where
  "feasible m n W z Wtilde \<longleftrightarrow> length z = n \<and> is_mat n m Wtilde \<and> constraints z Wtilde W"

text \<open>\<open>z\<close> is the \<open>z\<close>-part of a solution: feasible with some \<open>Wtilde\<close>, and no feasible
  point has a smaller objective.\<close>

definition is_optimum ::
  "nat \<Rightarrow> nat \<Rightarrow> real list list \<Rightarrow> real list \<Rightarrow> real list \<Rightarrow> real list \<Rightarrow> bool" where
  "is_optimum m n W b x z \<longleftrightarrow>
     (\<exists>Wtilde. feasible m n W z Wtilde \<and>
        (\<forall>z' Wtilde'. feasible m n W z' Wtilde' \<longrightarrow>
           objective z Wtilde x b \<le> objective z' Wtilde' x b))"

text \<open>The two ways an instance of the program can have no solution to return.\<close>

definition infeasible :: "nat \<Rightarrow> nat \<Rightarrow> real list list \<Rightarrow> bool" where
  "infeasible m n W \<longleftrightarrow> \<not> (\<exists>z Wtilde. feasible m n W z Wtilde)"

definition unbounded :: "nat \<Rightarrow> nat \<Rightarrow> real list list \<Rightarrow> real list \<Rightarrow> real list \<Rightarrow> bool" where
  "unbounded m n W b x \<longleftrightarrow>
     (\<forall>c. \<exists>z Wtilde. feasible m n W z Wtilde \<and> objective z Wtilde x b < c)"

section \<open>Tensors, errors and objects\<close>

datatype tensor =
    T0 (un_T0: real)
  | T1 (un_T1: "real list")
  | T2 (un_T2: "real list list")
  | T3 (un_T3: "real list list list")

datatype error =
    AttributeError string
  | TypeError
  | IndexError
  | ZeroDivisionError
  | ShapeError

text \<open>\<^verbatim>\<open>tf.rank\<close> and \<^verbatim>\<open>.shape\<close>.\<close>

fun rank :: "tensor \<Rightarrow> nat" where
  "rank (T0 _) = 0"
| "rank (T1 _) = 1"
| "rank (T2 _) = 2"
| "rank (T3 _) = 3"

definition inner :: "'a list list \<Rightarrow> nat" where
  "inner M = (case M of [] \<Rightarrow> 0 | r # _ \<Rightarrow> length r)"

fun shape :: "tensor \<Rightarrow> nat list" where
  "shape (T0 _) = []"
| "shape (T1 v) = [length v]"
| "shape (T2 M) = [length M, inner M]"
| "shape (T3 C) = [length C, inner C, (case C of [] \<Rightarrow> 0 | M # _ \<Rightarrow> inner M)]"

text \<open>A nested list is a tensor of the given shape when it is rectangular.\<close>

fun has_shape :: "nat list \<Rightarrow> tensor \<Rightarrow> bool" where
  "has_shape [] (T0 _) = True"
| "has_shape [n] (T1 v) = (length v = n)"
| "has_shape [n, m] (T2 M) = is_mat n m M"
| "has_shape [k, n, m] (T3 C) = (length C = k \<and> list_all (is_mat n m) C)"
| "has_shape _ _ = False"

definition and_then :: "error + 'a \<Rightarrow> ('a \<Rightarrow> error + 'b) \<Rightarrow> error + 'b" where
  "and_then r k = (case r of Inl e \<Rightarrow> Inl e | Inr v \<Rightarrow> k v)"

text \<open>A list comprehension whose element expression may raise: the first exception
  ends it.\<close>

fun collect :: "(error + 'a) list \<Rightarrow> error + 'a list" where
  "collect [] = Inr []"
| "collect (r # rs) = and_then r (\<lambda>v. and_then (collect rs) (\<lambda>vs. Inr (v # vs)))"

text \<open>Indexing a sequence with a non-negative index.\<close>

definition index :: "'a list \<Rightarrow> nat \<Rightarrow> error + 'a" where
  "index xs i = (if i < length xs then Inr (xs ! i) else Inl IndexError)"

fun tensor_map :: "(real \<Rightarrow> real) \<Rightarrow> tensor \<Rightarrow> tensor" where
  "tensor_map f (T0 a) = T0 (f a)"
| "tensor_map f (T1 v) = T1 (map f v)"
| "tensor_map f (T2 M) = T2 (map (map f) M)"
| "tensor_map f (T3 C) = T3 (map (map (map f)) C)"

text \<open>\<^verbatim>\<open>tf.stack\<close> along axis 0: the tensors must have one shape; the result has one
  more axis, of the length of the list. The empty list gives the empty vector. A result
  of rank 4 is outside the tensor type and reported as a shape error.\<close>

fun stack :: "tensor list \<Rightarrow> error + tensor" where
  "stack [] = Inr (T1 [])"
| "stack (t # ts) =
     (if list_all (\<lambda>u. shape u = shape t) ts then
        (case t of
           T0 _ \<Rightarrow> Inr (T1 (map un_T0 (t # ts)))
         | T1 _ \<Rightarrow> Inr (T2 (map un_T1 (t # ts)))
         | T2 _ \<Rightarrow> Inr (T3 (map un_T2 (t # ts)))
         | T3 _ \<Rightarrow> Inl ShapeError)
      else Inl ShapeError)"

text \<open>The slices of a tensor along axis 0 (\<^verbatim>\<open>t[0], t[1], ...\<close>).\<close>

fun unstack :: "tensor \<Rightarrow> tensor list" where
  "unstack (T0 _) = []"
| "unstack (T1 v) = map T0 v"
| "unstack (T2 M) = map T1 M"
| "unstack (T3 C) = map T2 C"

text \<open>\<^verbatim>\<open>Y - P\<close> for two matrices of one shape. Broadcasting between different shapes
  and the other ranks are not modelled: they are reported as a shape error.\<close>

fun tsub :: "tensor \<Rightarrow> tensor \<Rightarrow> error + tensor" where
  "tsub (T2 A) (T2 B) =
     (if list_all2 (\<lambda>r s. length r = length s) A B
      then Inr (T2 (map2 (\<lambda>r s. map2 (-) r s) A B)) else Inl ShapeError)"
| "tsub _ _ = Inl ShapeError"

text \<open>\<^verbatim>\<open>tf.math.reduce_sum\<close>: the sum of all entries.\<close>

fun reduce_sum :: "tensor \<Rightarrow> real" where
  "reduce_sum (T0 a) = a"
| "reduce_sum (T1 v) = sum_list v"
| "reduce_sum (T2 M) = sum_list (map sum_list M)"
| "reduce_sum (T3 C) = sum_list (map (\<lambda>M. sum_list (map sum_list M)) C)"

text \<open>An object is its attribute dictionary. An attribute holds a variable (a tensor
  that can be assigned) or a callable from the argument list to the list of results.\<close>

datatype attr =
    Variable tensor
  | Callable "tensor list \<Rightarrow> error + tensor list"

type_synonym object = "string \<Rightarrow> attr option"

definition getattr :: "object \<Rightarrow> string \<Rightarrow> error + attr" where
  "getattr self name = (case self name of None \<Rightarrow> Inl (AttributeError name) | Some a \<Rightarrow> Inr a)"

definition value_of :: "attr \<Rightarrow> error + tensor" where
  "value_of a = (case a of Variable t \<Rightarrow> Inr t | Callable _ \<Rightarrow> Inl TypeError)"

definition invoke :: "attr \<Rightarrow> tensor list \<Rightarrow> error + tensor list" where
  "invoke a args = (case a of Callable f \<Rightarrow> f args | Variable _ \<Rightarrow> Inl TypeError)"

text \<open>A method body is a sequence of actions on the object it is called on: each
  action takes the object, returns a value or raises, and returns the object as it
  leaves it. Reading an attribute leaves the object as it is; assigning one changes it.
  A computation that does not touch the object is lifted to an action.\<close>

type_synonym ('s, 'a) action = "'s \<Rightarrow> (error + 'a) \<times> 's"

definition lift :: "error + 'a \<Rightarrow> ('s, 'a) action" where
  "lift r = (\<lambda>s. (r, s))"

definition then_run :: "('s, 'a) action \<Rightarrow> ('a \<Rightarrow> ('s, 'b) action) \<Rightarrow> ('s, 'b) action" where
  "then_run a k = (\<lambda>s. case a s of (Inl e, s') \<Rightarrow> (Inl e, s') | (Inr v, s') \<Rightarrow> k v s')"

definition read_attr :: "string \<Rightarrow> (object, attr) action" where
  "read_attr name = (\<lambda>self. (getattr self name, self))"

definition write_attr :: "string \<Rightarrow> attr \<Rightarrow> (object, unit) action" where
  "write_attr name a = (\<lambda>self. (Inr (), self(name \<mapsto> a)))"

fun collect_actions :: "('s, 'a) action list \<Rightarrow> ('s, 'a list) action" where
  "collect_actions [] = lift (Inr [])"
| "collect_actions (a # as) =
     then_run a (\<lambda>v. then_run (collect_actions as) (\<lambda>vs. lift (Inr (v # vs))))"

section \<open>The convex-layer adapter\<close>

type_synonym adapter = "tensor list \<Rightarrow> error + tensor list"

text \<open>
  Modelled from the spec: the class \<^verbatim>\<open>CvxpyLayer\<close> of \<^verbatim>\<open>cvxpylayers.tensorflow\<close>,
  whose code is not among the sources. The notebook builds
  \<^verbatim>\<open>CvxpyLayer(problem, [W, b, x], [z])\<close>; the result is a callable that takes values
  for \<open>W\<close>, \<open>b\<close>, \<open>x\<close> in this order and returns the list of the values of \<open>z\<close>.
  Section 4.1 of the specification: called with concrete values for every parameter
  (optionally with an added leading batch dimension, applied independently per batch
  element), it returns concrete values for every declared variable, computed by solving
  the instantiated convex program to optimality. The adapter is a parameter of the
  model; \<open>adapter_contract m n f\<close> says that \<open>f\<close> meets this contract for the program
  above with \<^verbatim>\<open>input_dim\<close> \<open>m\<close> and \<^verbatim>\<open>output_dim\<close> \<open>n\<close>. The contract is stated
  for non-empty batches only.
\<close>

definition adapter_contract :: "nat \<Rightarrow> nat \<Rightarrow> adapter \<Rightarrow> bool" where
  "adapter_contract m n f \<longleftrightarrow>
     (\<forall>W b x. is_mat n m W \<and> length b = n \<and> length x = m \<longrightarrow>
        (\<exists>z. f [T2 W, T1 b, T1 x] = Inr [T1 z] \<and> is_optimum m n W b x z)) \<and>
     (\<forall>Ws bs xs. Ws \<noteq> [] \<and> length bs = length Ws \<and> length xs = length Ws \<and>
          list_all (is_mat n m) Ws \<and> list_all (\<lambda>b. length b = n) bs \<and>
          list_all (\<lambda>x. length x = m) xs \<longrightarrow>
        (\<exists>zs. f [T3 Ws, T2 bs, T2 xs] = Inr [T2 zs] \<and> length zs = length Ws \<and>
           (\<forall>i < length Ws. is_optimum m n (Ws ! i) (bs ! i) (xs ! i) (zs ! i))))"

text \<open>The direct computation the notebook's first cell describes (matrix
  multiplication, vector addition, positive part), packaged as an adapter. It is used
  to run the layer on concrete inputs.\<close>

fun relu_adapter :: adapter where
  "relu_adapter [T2 W, T1 b, T1 x] = Inr [T1 (relu (vadd (matvec W x) b))]"
| "relu_adapter [T3 Ws, T2 bs, T2 xs] =
     Inr [T2 (map (\<lambda>(W, b, x). relu (vadd (matvec W x) b)) (zip Ws (zip bs xs)))]"
| "relu_adapter _ = Inl ShapeError"

section \<open>The class \<^verbatim>\<open>ReluLayer\<close>\<close>

text \<open>
  \<^verbatim>\<open>
  def __init__(self, input_dim, output_dim):
      super(ReluLayer, self).__init__()
      self.W = tf.Variable(1e-3 * tf.random.normal((output_dim, input_dim), dtype=tf.float64))
      self.b = tf.Variable(1e-3 * tf.random.normal((output_dim,),  dtype=tf.float64))
      ...
      self.cvxpy_layer = CvxpyLayer(problem, [W, b, x], [z])
  \<close>
  The two samples drawn by \<^verbatim>\<open>tf.random.normal\<close> and the adapter built by
  \<^verbatim>\<open>CvxpyLayer\<close> are parameters. The constructor sets the three attributes \<^verbatim>\<open>W\<close>,
  \<^verbatim>\<open>b\<close> and \<^verbatim>\<open>cvxpy_layer\<close> and no other; the base class \<^verbatim>\<open>layers.Layer\<close> has no
  attribute named \<^verbatim>\<open>layer\<close>.
\<close>

definition ReluLayer_init :: "tensor \<Rightarrow> tensor \<Rightarrow> adapter \<Rightarrow> object" where
  "ReluLayer_init W_normal b_normal CvxpyLayer =
     [''W'' \<mapsto> Variable (tensor_map (\<lambda>t. 1 / 1000 * t) W_normal),
      ''b'' \<mapsto> Variable (tensor_map (\<lambda>t. 1 / 1000 * t) b_normal),
      ''cvxpy_layer'' \<mapsto> Callable CvxpyLayer]"

text \<open>
  \<^verbatim>\<open>
  def call(self, x):
      if tf.rank(x) == 2:
          # when x is batched, repeat W and b
          batch_size = x.shape[0]
          return self.cvxpy_layer(
              tf.stack([self.W for _ in tf.range(batch_size)]),
              tf.stack([self.b for _ in tf.range(batch_size)]), x)[0]
      else:
          return self.layer(self.W, self.b, x)[0]
  \<close>
  \<open>call\<close> is the body as a sequence of actions on \<^verbatim>\<open>self\<close>, in the order Python
  evaluates it: the callee before the arguments, the arguments left to right, each
  element of a list comprehension in turn. The adapter is called with the two new
  tensors \<^verbatim>\<open>tf.stack\<close> builds and with \<^verbatim>\<open>x\<close>; it is a function of its arguments
  (section 4.1 of the specification).

  \<open>call_value\<close> is the value the body computes, written without the object's state,
  and \<open>batched_args\<close> is the argument list of the call in the first branch for a given
  \<^verbatim>\<open>batch_size\<close>; lemma \<open>call_eq\<close> below shows that \<open>call\<close> returns this value.
\<close>

definition batched_args :: "object \<Rightarrow> nat \<Rightarrow> tensor \<Rightarrow> error + tensor list" where
  "batched_args self batch_size x =
     and_then (collect (map (\<lambda>_. and_then (getattr self ''W'') value_of) [0..<batch_size])) (\<lambda>Ws.
     and_then (stack Ws) (\<lambda>Wstack.
     and_then (collect (map (\<lambda>_. and_then (getattr self ''b'') value_of) [0..<batch_size])) (\<lambda>bs.
     and_then (stack bs) (\<lambda>bstack.
     Inr [Wstack, bstack, x]))))"

definition call_value :: "object \<Rightarrow> tensor \<Rightarrow> error + tensor" where
  "call_value self x =
     (if rank x = 2 then
         and_then (index (shape x) 0) (\<lambda>batch_size.
         and_then (getattr self ''cvxpy_layer'') (\<lambda>layer.
         and_then (batched_args self batch_size x) (\<lambda>args.
         and_then (invoke layer args) (\<lambda>outs.
         index outs 0))))
      else
         and_then (getattr self ''layer'') (\<lambda>layer.
         and_then (and_then (getattr self ''W'') value_of) (\<lambda>W.
         and_then (and_then (getattr self ''b'') value_of) (\<lambda>b.
         and_then (invoke layer [W, b, x]) (\<lambda>outs.
         index outs 0)))))"

definition call :: "object \<Rightarrow> tensor \<Rightarrow> (error + tensor) \<times> object" where
  "call self x =
     (if rank x = 2 then
         then_run (lift (index (shape x) 0)) (\<lambda>batch_size.
         then_run (read_attr ''cvxpy_layer'') (\<lambda>layer.
         then_run (collect_actions
           (map (\<lambda>_. then_run (read_attr ''W'') (\<lambda>a. lift (value_of a))) [0..<batch_size])) (\<lambda>Ws.
         then_run (lift (stack Ws)) (\<lambda>Wstack.
         then_run (collect_actions
           (map (\<lambda>_. then_run (read_attr ''b'') (\<lambda>a. lift (value_of a))) [0..<batch_size])) (\<lambda>bs.
         then_run (lift (stack bs)) (\<lambda>bstack.
         then_run (lift (invoke layer [Wstack, bstack, x])) (\<lambda>outs.
         lift (index outs 0))))))))
      else
         then_run (read_attr ''layer'') (\<lambda>layer.
         then_run (then_run (read_attr ''W'') (\<lambda>a. lift (value_of a))) (\<lambda>W.
         then_run (then_run (read_attr ''b'') (\<lambda>a. lift (value_of a))) (\<lambda>b.
         then_run (lift (invoke layer [W, b, x])) (\<lambda>outs.
         lift (index outs 0)))))) self"

text \<open>A layer with two inputs and two outputs, \<open>W = ((1, -1), (2, 0))\<close> and
  \<open>b = (0, 1)\<close>, on which the theorems below run the code.\<close>

definition sample_layer :: object where
  "sample_layer = ReluLayer_init (T2 [[1000, -1000], [2000, 0]]) (T1 [0, 1000]) relu_adapter"

section \<open>The sequential model\<close>

text \<open>
  \<^verbatim>\<open>
  model = tf.keras.Sequential([
      ReluLayer(20, 20),
      ReluLayer(20, 20),
      tf.keras.layers.Dense(1, input_shape=(20,), dtype=tf.float64)
  ])
  \<close>
  The third layer is Keras's, not the notebook's: the standard linear (dense) layer of
  the specification, with a kernel, a bias and no activation. It is created without
  weights. Its first call builds them for the width of the input it is given: the
  kernel is what the layer's initializer gives for the shape (width, units), the bias is
  0. On a batch the layer returns \<^verbatim>\<open>inputs @ kernel + bias\<close>. Inputs of another rank are
  not modelled and reported as a shape error. The initializer is a parameter. The
  argument \<^verbatim>\<open>input_shape\<close> has an effect only on the first layer of a model and is not
  modelled.
\<close>

record dense_layer =
  units :: nat
  kernel_initializer :: "nat list \<Rightarrow> tensor"
  weights :: "(tensor \<times> tensor) option"

definition Dense_init :: "nat \<Rightarrow> (nat list \<Rightarrow> tensor) \<Rightarrow> dense_layer" where
  "Dense_init u initializer = \<lparr>units = u, kernel_initializer = initializer, weights = None\<rparr>"

definition Dense_build :: "dense_layer \<Rightarrow> nat \<Rightarrow> dense_layer" where
  "Dense_build D width =
     (case weights D of
        Some _ \<Rightarrow> D
      | None \<Rightarrow>
          D\<lparr>weights := Some (kernel_initializer D [width, units D], T1 (replicate (units D) 0))\<rparr>)"

definition vecmat :: "real list \<Rightarrow> real list list \<Rightarrow> nat \<Rightarrow> real list" where
  "vecmat r K u = map (\<lambda>j. dot r (map (\<lambda>k. k ! j) K)) [0..<u]"

definition Dense_call :: "dense_layer \<Rightarrow> tensor \<Rightarrow> (error + tensor) \<times> dense_layer" where
  "Dense_call D x =
     (case x of
        T2 X \<Rightarrow>
          (let D' = Dense_build D (inner X) in
           case weights D' of
             Some (T2 Km, T1 cv) \<Rightarrow>
               if list_all (\<lambda>r. length r = length Km) X \<and> list_all (\<lambda>k. length k = length cv) Km
               then (Inr (T2 (map (\<lambda>r. vadd (vecmat r Km (length cv)) cv) X)), D')
               else (Inl ShapeError, D')
           | _ \<Rightarrow> (Inl ShapeError, D'))
      | _ \<Rightarrow> (Inl ShapeError, D))"

record model =
  relu1 :: object
  relu2 :: object
  dense :: dense_layer

text \<open>A call of the model passes the input through the three layers in order; each
  layer is left as its own call leaves it.\<close>

definition model_call :: "model \<Rightarrow> tensor \<Rightarrow> (error + tensor) \<times> model" where
  "model_call M x =
     (let (r1, l1) = call (relu1 M) x; M1 = M\<lparr>relu1 := l1\<rparr> in
      case r1 of Inl e \<Rightarrow> (Inl e, M1) | Inr h1 \<Rightarrow>
     (let (r2, l2) = call (relu2 M1) h1; M2 = M1\<lparr>relu2 := l2\<rparr> in
      case r2 of Inl e \<Rightarrow> (Inl e, M2) | Inr h2 \<Rightarrow>
     (let (r3, l3) = Dense_call (dense M2) h2 in (r3, M2\<lparr>dense := l3\<rparr>))))"

text \<open>\<^verbatim>\<open>model.variables\<close>, in the order of the layers: the dense layer has variables
  once it is built. The optimizer assigns a new value to each variable it is given.\<close>

definition variables :: "model \<Rightarrow> error + tensor list" where
  "variables M =
     and_then (and_then (getattr (relu1 M) ''W'') value_of) (\<lambda>W1.
     and_then (and_then (getattr (relu1 M) ''b'') value_of) (\<lambda>b1.
     and_then (and_then (getattr (relu2 M) ''W'') value_of) (\<lambda>W2.
     and_then (and_then (getattr (relu2 M) ''b'') value_of) (\<lambda>b2.
     Inr ([W1, b1, W2, b2] @ (case weights (dense M) of None \<Rightarrow> [] | Some (K, c) \<Rightarrow> [K, c]))))))"

definition assign_layer :: "tensor \<Rightarrow> tensor \<Rightarrow> (object, unit) action" where
  "assign_layer W b =
     then_run (write_attr ''W'' (Variable W)) (\<lambda>_. write_attr ''b'' (Variable b))"

definition assign_variables :: "model \<Rightarrow> tensor list \<Rightarrow> error + model" where
  "assign_variables M vs =
     (case vs of
        W1 # b1 # W2 # b2 # others \<Rightarrow>
          (let M' = M\<lparr>relu1 := snd (assign_layer W1 b1 (relu1 M)),
                      relu2 := snd (assign_layer W2 b2 (relu2 M))\<rparr> in
           case (weights (dense M), others) of
             (None, []) \<Rightarrow> Inr M'
           | (Some _, [K, c]) \<Rightarrow> Inr (M'\<lparr>dense := (dense M)\<lparr>weights := Some (K, c)\<rparr>\<rparr>)
           | _ \<Rightarrow> Inl ShapeError)
      | _ \<Rightarrow> Inl ShapeError)"

text \<open>The model of the notebook's fourth cell, with the samples drawn for the two layers,
  the two adapters and the initializer of the dense layer as parameters; and a small
  model of the same architecture, built from the sample layer, whose initializer gives
  the kernel \<open>(1, 1)\<close>.\<close>

definition Sequential_init ::
  "tensor \<Rightarrow> tensor \<Rightarrow> adapter \<Rightarrow> tensor \<Rightarrow> tensor \<Rightarrow> adapter \<Rightarrow> (nat list \<Rightarrow> tensor) \<Rightarrow> model" where
  "Sequential_init W1_normal b1_normal CvxpyLayer1 W2_normal b2_normal CvxpyLayer2 initializer =
     \<lparr>relu1 = ReluLayer_init W1_normal b1_normal CvxpyLayer1,
      relu2 = ReluLayer_init W2_normal b2_normal CvxpyLayer2,
      dense = Dense_init 1 initializer\<rparr>"

definition sample_model :: model where
  "sample_model =
     Sequential_init (T2 [[1000, -1000], [2000, 0]]) (T1 [0, 1000]) relu_adapter
       (T2 [[1000, -1000], [2000, 0]]) (T1 [0, 1000]) relu_adapter (\<lambda>_. T2 [[1], [1]])"

section \<open>The training loop\<close>

text \<open>
  \<^verbatim>\<open>
  opt = tf.keras.optimizers.Adam(1e-2)
  for _ in range(25):
      with tf.GradientTape() as tape:
          loss = (1 / X.shape[0]) * tf.math.reduce_sum((Y - model(X))**2)
          print(loss)
      grads = tape.gradient(loss, model.variables)
      opt.apply_gradients(zip(grads, model.variables))
  \<close>
  The state of the run is the model, the state of the optimizer and the lines printed
  so far (one printed scalar per line). \<^verbatim>\<open>tape.gradient\<close> and \<^verbatim>\<open>opt.apply_gradients\<close>
  are TensorFlow's and are parameters: \<open>gradient\<close> maps the values of the variables to
  the list of gradients, \<open>apply_gradients\<close> maps the optimizer's state and the list of
  pairs (gradient, variable) to the new values of the variables and the new state.
\<close>

record 'o trainer =
  net :: model
  opt :: 'o
  console :: "real list"

definition loss :: "model \<Rightarrow> tensor \<Rightarrow> tensor \<Rightarrow> (error + real) \<times> model" where
  "loss M X Y =
     (case index (shape X) 0 of Inl e \<Rightarrow> (Inl e, M) | Inr rows \<Rightarrow>
      if rows = 0 then (Inl ZeroDivisionError, M)
      else
        (let (p, M') = model_call M X in
         (and_then p (\<lambda>pred.
          and_then (tsub Y pred) (\<lambda>d.
          Inr ((1 / real rows) * reduce_sum (tensor_map (\<lambda>t. t\<^sup>2) d)))), M')))"

definition train_step ::
  "(tensor list \<Rightarrow> tensor list) \<Rightarrow> ('o \<Rightarrow> (tensor \<times> tensor) list \<Rightarrow> tensor list \<times> 'o) \<Rightarrow>
   tensor \<Rightarrow> tensor \<Rightarrow> 'o trainer \<Rightarrow> error + 'o trainer" where
  "train_step gradient apply_gradients X Y s =
     (let (l, M) = loss (net s) X Y in
      and_then l (\<lambda>loss_value.
      let out = console s @ [loss_value] in
      and_then (variables M) (\<lambda>vs.
      let grads = gradient vs in
      and_then (variables M) (\<lambda>vs'.
      let (new, opt') = apply_gradients (opt s) (zip grads vs') in
      and_then (assign_variables M new) (\<lambda>M'.
      Inr \<lparr>net = M', opt = opt', console = out\<rparr>)))))"

text \<open>A \<^verbatim>\<open>for\<close> loop over a list: the body runs once per element, in order, and an
  exception in the body ends the loop.\<close>

fun for_loop :: "'i list \<Rightarrow> ('i \<Rightarrow> 's \<Rightarrow> error + 's) \<Rightarrow> 's \<Rightarrow> error + 's" where
  "for_loop [] body s = Inr s"
| "for_loop (i # is) body s = and_then (body i s) (for_loop is body)"

definition training_loop ::
  "(tensor list \<Rightarrow> tensor list) \<Rightarrow> ('o \<Rightarrow> (tensor \<times> tensor) list \<Rightarrow> tensor list \<times> 'o) \<Rightarrow>
   tensor \<Rightarrow> tensor \<Rightarrow> 'o trainer \<Rightarrow> error + 'o trainer" where
  "training_loop gradient apply_gradients X Y s =
     for_loop [0..<25] (\<lambda>_. train_step gradient apply_gradients X Y) s"

text \<open>A starting state for the run on the small model, with a tape and an optimizer
  to run it with: the gradient of a variable is twice its value, and the optimizer
  counts its steps and moves every entry of a variable by a hundredth of the sum of the
  variable's gradient.\<close>

definition sample_trainer :: "nat trainer" where
  "sample_trainer = \<lparr>net = sample_model, opt = 0, console = []\<rparr>"

definition sample_gradient :: "tensor list \<Rightarrow> tensor list" where
  "sample_gradient vs = map (tensor_map (\<lambda>t. 2 * t)) vs"

definition sample_apply :: "nat \<Rightarrow> (tensor \<times> tensor) list \<Rightarrow> tensor list \<times> nat" where
  "sample_apply st gvs =
     (map (\<lambda>(g, v). tensor_map (\<lambda>t. t - reduce_sum g / 100) v) gvs, Suc st)"

text \<open>The conditions under which the run below is studied. A layer is in order
  when its two variables have the shapes the constructor gave them and its adapter meets
  the contract; the dense layer is in order when it has one unit and its weights, built
  or still to be built, have the shapes of its input width; the model is in order when
  its three layers are; the optimizer keeps the shape of every variable, as an
  elementwise update does; the tape returns one gradient per variable.\<close>

definition layer_ok :: "nat \<Rightarrow> nat \<Rightarrow> object \<Rightarrow> bool" where
  "layer_ok m n self \<longleftrightarrow>
     (\<exists>W b f. self ''W'' = Some (Variable (T2 W)) \<and> is_mat n m W \<and>
        self ''b'' = Some (Variable (T1 b)) \<and> length b = n \<and>
        self ''cvxpy_layer'' = Some (Callable f) \<and> adapter_contract m n f)"

definition dense_ok :: "nat \<Rightarrow> dense_layer \<Rightarrow> bool" where
  "dense_ok d D \<longleftrightarrow>
     units D = 1 \<and>
     (case weights D of
        None \<Rightarrow> has_shape [d, 1] (kernel_initializer D [d, 1])
      | Some (K, c) \<Rightarrow> has_shape [d, 1] K \<and> has_shape [1] c)"

definition model_ok :: "nat \<Rightarrow> nat \<Rightarrow> nat \<Rightarrow> model \<Rightarrow> bool" where
  "model_ok d0 d1 d2 M \<longleftrightarrow>
     layer_ok d0 d1 (relu1 M) \<and> layer_ok d1 d2 (relu2 M) \<and> dense_ok d2 (dense M)"

definition keeps_shapes :: "('o \<Rightarrow> (tensor \<times> tensor) list \<Rightarrow> tensor list \<times> 'o) \<Rightarrow> bool" where
  "keeps_shapes apply_gradients \<longleftrightarrow>
     (\<forall>st gvs. list_all2 (\<lambda>v v'. \<forall>sh. has_shape sh v \<longrightarrow> has_shape sh v')
        (map snd gvs) (fst (apply_gradients st gvs)))"

definition one_per_variable :: "(tensor list \<Rightarrow> tensor list) \<Rightarrow> bool" where
  "one_per_variable gradient \<longleftrightarrow> (\<forall>vs. length (gradient vs) = length vs)"

text \<open>The mean squared error in the words of the specification: the sum over all
  entries of \<open>(Y - P)\<^sup>2\<close>, divided by the number of rows.\<close>

definition mean_squared_error :: "nat \<Rightarrow> real list list \<Rightarrow> real list list \<Rightarrow> real" where
  "mean_squared_error rows Y P =
     (\<Sum>i < length Y. \<Sum>j < length (Y ! i). (Y ! i ! j - P ! i ! j)\<^sup>2) / real rows"

text \<open>The 25 lines the notebook records as the output of its last cell, in order.\<close>

definition recorded_losses :: "real list" where
  "recorded_losses =
     [1.1182059444179566, 1.1135983945033263, 1.1057307058385368, 1.096769654269908,
      1.084459023932493, 1.0690279563783676, 1.0512619022795688, 1.0322302881090637,
      1.0125819721396856, 0.9913663215521406, 0.9653676807090706, 0.9346387377331861,
      0.901583417900799, 0.8696330587760338, 0.8358727832552605, 0.8012632687553815,
      0.7656949960892767, 0.732059435220954, 0.7007173654028725, 0.6717739637641655,
      0.6479549948680946, 0.6260994111911655, 0.6061758074104243, 0.5910289888009993,
      0.5749367021103264]"

section \<open>The optimum of the convex program\<close>

lemma sq_relu_le:
  fixes t a :: real
  assumes "0 \<le> t"
  shows "(max a 0 - a)\<^sup>2 \<le> (t - a)\<^sup>2"
proof (cases "0 \<le> a")
  case True
  then show ?thesis by (simp add: max_def)
next
  case False
  then have "a < 0" by simp
  have expand: "(t - a)\<^sup>2 = t\<^sup>2 + (- a) * (2 * t) + a\<^sup>2"
    by (simp add: power2_eq_square algebra_simps)
  have cross: "0 \<le> (- a) * (2 * t)"
    using \<open>a < 0\<close> assms by (intro mult_nonneg_nonneg) simp_all
  have "0 \<le> t\<^sup>2" by (rule zero_le_power2)
  with expand cross have "a\<^sup>2 \<le> (t - a)\<^sup>2" by linarith
  with \<open>a < 0\<close> show ?thesis by (simp add: max_def)
qed

lemma sq_relu_eq:
  fixes t a :: real
  assumes "0 \<le> t" and "(t - a)\<^sup>2 \<le> (max a 0 - a)\<^sup>2"
  shows "t = max a 0"
proof (cases "0 \<le> a")
  case True
  with assms(2) have "(t - a)\<^sup>2 \<le> 0" by (simp add: max_def)
  then have "t - a = 0" by (simp only: power2_less_eq_zero_iff)
  with True show ?thesis by (simp add: max_def)
next
  case False
  then have neg: "a < 0" by simp
  with assms(2) have le: "(t - a)\<^sup>2 \<le> a\<^sup>2" by (simp add: max_def)
  have "(t - a)\<^sup>2 = t * (t - 2 * a) + a\<^sup>2"
    by (simp add: power2_eq_square algebra_simps)
  with le have prod: "t * (t - 2 * a) \<le> 0" by linarith
  have pos: "0 < t - 2 * a" using neg assms(1) by simp
  from prod pos have "t \<le> 0" by (simp only: mult_le_0_iff) linarith
  with assms(1) neg show ?thesis by (simp add: max_def)
qed

lemma sum_squares_relu_le:
  assumes "length z = length a" and "list_all (\<lambda>t. 0 \<le> t) z"
  shows "sum_squares (vsub (relu a) a) \<le> sum_squares (vsub z a)"
  using assms
proof (induction z a rule: list_induct2)
  case Nil
  then show ?case by (simp add: sum_squares_def vsub_def relu_def)
next
  case (Cons t z a as)
  then have "sum_squares (vsub (relu as) as) \<le> sum_squares (vsub z as)" and "0 \<le> t"
    by simp_all
  with sq_relu_le [of t a] show ?case
    by (simp add: sum_squares_def vsub_def relu_def)
qed

lemma sum_squares_relu_unique:
  assumes "length z = length a" and "list_all (\<lambda>t. 0 \<le> t) z"
    and "sum_squares (vsub z a) \<le> sum_squares (vsub (relu a) a)"
  shows "z = relu a"
  using assms
proof (induction z a rule: list_induct2)
  case Nil
  then show ?case by (simp add: relu_def)
next
  case (Cons t z a as)
  from Cons.prems have nn: "0 \<le> t" "list_all (\<lambda>t. 0 \<le> t) z" by simp_all
  have tail: "sum_squares (vsub (relu as) as) \<le> sum_squares (vsub z as)"
    using Cons.hyps nn(2) by (rule sum_squares_relu_le)
  have head: "(max a 0 - a)\<^sup>2 \<le> (t - a)\<^sup>2"
    using nn(1) by (rule sq_relu_le)
  from Cons.prems(2)
  have total: "(t - a)\<^sup>2 + sum_squares (vsub z as)
      \<le> (max a 0 - a)\<^sup>2 + sum_squares (vsub (relu as) as)"
    by (simp add: sum_squares_def vsub_def relu_def)
  from total tail have "(t - a)\<^sup>2 \<le> (max a 0 - a)\<^sup>2" by linarith
  with nn(1) have t: "t = max a 0" by (rule sq_relu_eq)
  from total head have "sum_squares (vsub z as) \<le> sum_squares (vsub (relu as) as)" by linarith
  with Cons.IH nn(2) have "z = relu as" by simp
  with t show ?case by (simp add: relu_def)
qed

lemma vsub_vsub:
  assumes "length z = length y" and "length y = length b"
  shows "vsub (vsub z y) b = vsub z (vadd y b)"
  using assms by (induction z y b rule: list_induct3) (simp_all add: vsub_def vadd_def)

lemma length_matvec [simp]: "length (matvec M v) = length M"
  by (simp add: matvec_def)

lemma length_vadd [simp]: "length (vadd u v) = min (length u) (length v)"
  by (simp add: vadd_def)

lemma length_relu [simp]: "length (relu v) = length v"
  by (simp add: relu_def)

lemma list_all_relu: "list_all (\<lambda>t. 0 \<le> t) (relu v)"
  by (simp add: relu_def list_all_iff)

lemma sum_squares_nonneg: "0 \<le> sum_squares v"
  by (auto simp: sum_squares_def intro!: sum_list_nonneg)

text \<open>For parameters of the declared shapes the program has exactly one solution in
  \<open>z\<close>: the elementwise maximum of \<open>W x + b\<close> and 0.\<close>

lemma is_optimum_iff_relu:
  assumes W: "is_mat n m W" and b: "length b = n"
  shows "is_optimum m n W b x z \<longleftrightarrow> z = relu (vadd (matvec W x) b)"
proof -
  let ?a = "vadd (matvec W x) b"
  have la: "length ?a = n" using W b by (simp add: is_mat_def)
  have obj: "objective z' W x b = sum_squares (vsub z' ?a)" if "length z' = n" for z'
    using that W b by (simp add: objective_def vsub_vsub is_mat_def)
  show ?thesis
  proof
    assume "is_optimum m n W b x z"
    then obtain Wt where f: "feasible m n W z Wt"
      and opt: "\<And>z' Wt'. feasible m n W z' Wt' \<Longrightarrow> objective z Wt x b \<le> objective z' Wt' x b"
      unfolding is_optimum_def by blast
    from f have Wt: "Wt = W" and lz: "length z = n" and nn: "list_all (\<lambda>t. 0 \<le> t) z"
      by (simp_all add: feasible_def constraints_def)
    have "feasible m n W (relu ?a) W"
      using W la by (simp add: feasible_def constraints_def list_all_relu)
    from opt [OF this] have "objective z W x b \<le> objective (relu ?a) W x b"
      by (simp add: Wt)
    then have "sum_squares (vsub z ?a) \<le> sum_squares (vsub (relu ?a) ?a)"
      using lz la by (simp add: obj)
    with lz la nn show "z = relu ?a"
      by (intro sum_squares_relu_unique) simp_all
  next
    assume z: "z = relu ?a"
    have feas: "feasible m n W z W"
      using W la by (simp add: z feasible_def constraints_def list_all_relu)
    moreover have "objective z W x b \<le> objective z' Wt' x b" if "feasible m n W z' Wt'" for z' Wt'
    proof -
      from that have "Wt' = W" "length z' = n" "list_all (\<lambda>t. 0 \<le> t) z'"
        by (simp_all add: feasible_def constraints_def)
      then show ?thesis
        using la sum_squares_relu_le [of z' ?a] by (simp add: obj z)
    qed
    ultimately show "is_optimum m n W b x z"
      unfolding is_optimum_def by blast
  qed
qed


lemma feasible_relu:
  assumes "is_mat n m W" and "length b = n"
  shows "feasible m n W (relu (vadd (matvec W x) b)) W"
  using assms by (simp add: feasible_def constraints_def list_all_relu is_mat_def)

lemma objective_nonneg: "0 \<le> objective z Wtilde x b"
  by (simp add: objective_def sum_squares_nonneg)

text \<open>C9. For all values of the parameters \<open>W\<close>, \<open>b\<close>, \<open>x\<close> of the declared shapes, the
  program is feasible (\<open>z = max(W x + b, 0)\<close> with \<open>Wtilde = W\<close> satisfies every
  constraint) and its objective is bounded below by 0; so the instance is neither
  infeasible nor unbounded.\<close>

theorem relu_program_feasible_and_bounded:
  assumes "is_mat n m W" and "length b = n" and "length x = m"
  shows "feasible m n W (relu (vadd (matvec W x) b)) W \<and>
         (\<forall>z Wtilde. 0 \<le> objective z Wtilde x b) \<and>
         \<not> infeasible m n W \<and> \<not> unbounded m n W b x"
proof -
  have feas: "feasible m n W (relu (vadd (matvec W x) b)) W"
    using assms(1,2) by (rule feasible_relu)
  have bound: "\<forall>z Wtilde. 0 \<le> objective z Wtilde x b"
    by (simp add: objective_nonneg)
  from feas have "\<not> infeasible m n W"
    unfolding infeasible_def by blast
  moreover have "\<not> unbounded m n W b x"
  proof
    assume "unbounded m n W b x"
    then obtain z Wtilde where "objective z Wtilde x b < 0"
      unfolding unbounded_def by blast
    with objective_nonneg [of z Wtilde x b] show False by simp
  qed
  ultimately show ?thesis using feas bound by blast
qed

theorem relu_program_feasible_and_bounded_witness:
  "feasible 2 2 [[1, -1], [2, 0]] (relu (vadd (matvec [[1, -1], [2, 0]] [1, 2]) [0, 1]))
      [[1, -1], [2, 0]] \<and>
   (\<forall>z Wtilde. 0 \<le> objective z Wtilde [1, 2] [0, 1]) \<and>
   \<not> infeasible 2 2 [[1, -1], [2, 0]] \<and>
   \<not> unbounded 2 2 [[1, -1], [2, 0]] [0, 1] [1, 2]"
  using relu_program_feasible_and_bounded [of 2 2 "[[1, -1], [2, 0]]" "[0, 1]" "[1, 2]"]
  by (simp add: is_mat_def)

section \<open>Running the layer\<close>

lemma and_then_Inr [simp]: "and_then (Inr v) k = k v"
  by (simp add: and_then_def)

lemma and_then_Inl [simp]: "and_then (Inl e) k = Inl e"
  by (simp add: and_then_def)

lemma collect_const: "collect (map (\<lambda>_. Inr v) xs) = Inr (replicate (length xs) v)"
  by (induction xs) simp_all

lemma stack_replicate:
  assumes "rank t < 3"
  shows "\<exists>s. stack (replicate B t) = Inr s \<and> unstack s = replicate B t"
proof (cases B)
  case 0
  then show ?thesis by simp
next
  case (Suc k)
  with assms show ?thesis
    by (cases t) (simp_all add: list_all_iff map_replicate_const)
qed

lemma stack_replicate_T2: "0 < B \<Longrightarrow> stack (replicate B (T2 M)) = Inr (T3 (replicate B M))"
  by (cases B) (simp_all add: list_all_iff)

lemma stack_replicate_T1: "0 < B \<Longrightarrow> stack (replicate B (T1 v)) = Inr (T2 (replicate B v))"
  by (cases B) (simp_all add: list_all_iff)

lemma batched_args_eq:
  assumes "self ''W'' = Some (Variable W)" and "self ''b'' = Some (Variable b)"
  shows "batched_args self B x =
     and_then (stack (replicate B W)) (\<lambda>Wstack.
     and_then (stack (replicate B b)) (\<lambda>bstack. Inr [Wstack, bstack, x]))"
  using assms by (simp add: batched_args_def getattr_def value_of_def collect_const)

section \<open>The body of \<^verbatim>\<open>call\<close> as actions\<close>

lemma lift_frame: "snd (lift r s) = s"
  by (simp add: lift_def)

lemma read_attr_frame: "snd (read_attr name s) = s"
  by (simp add: read_attr_def)

lemma write_attr_changes: "snd (write_attr name a s) = s(name \<mapsto> a)"
  by (simp add: write_attr_def)

lemma then_run_frame:
  assumes "\<And>s. snd (a s) = s" and "\<And>v s. snd (k v s) = s"
  shows "snd (then_run a k s) = s"
proof (cases "a s")
  case (Pair r s')
  with assms(1) [of s] have "s' = s" by simp
  with Pair assms(2) show ?thesis
    by (cases r) (simp_all add: then_run_def)
qed

lemma collect_actions_frame:
  assumes "\<And>a s. a \<in> set as \<Longrightarrow> snd (a s) = s"
  shows "snd (collect_actions as s) = s"
  using assms
proof (induction as arbitrary: s)
  case Nil
  then show ?case by (simp add: lift_frame)
next
  case (Cons a as)
  show ?case
    unfolding collect_actions.simps
    by (intro then_run_frame lift_frame Cons.IH Cons.prems) simp_all
qed

lemma lift_apply: "lift r s = (r, s)"
  by (simp add: lift_def)

lemma then_run_lift: "then_run (lift r) k s = (case r of Inl e \<Rightarrow> (Inl e, s) | Inr v \<Rightarrow> k v s)"
  by (simp add: then_run_def lift_def split: sum.splits)

lemma then_run_read_attr:
  "then_run (read_attr name) k s = (case getattr s name of Inl e \<Rightarrow> (Inl e, s) | Inr a \<Rightarrow> k a s)"
  by (simp add: then_run_def read_attr_def split: sum.splits)

lemma then_run_pure:
  assumes "a s = (r, s)"
  shows "then_run a k s = (case r of Inl e \<Rightarrow> (Inl e, s) | Inr v \<Rightarrow> k v s)"
  using assms by (simp add: then_run_def split: sum.splits)

lemma read_value:
  "then_run (read_attr name) (\<lambda>a. lift (value_of a)) s = (and_then (getattr s name) value_of, s)"
  by (simp add: then_run_read_attr lift_apply and_then_def split: sum.splits)

lemma collect_actions_pure:
  assumes "\<And>s. a s = (r s, s)"
  shows "collect_actions (map (\<lambda>_. a) xs) s = (collect (map (\<lambda>_. r s) xs), s)"
proof (induction xs)
  case Nil
  then show ?case by (simp add: lift_apply)
next
  case (Cons x xs)
  have step: "then_run (collect_actions (map (\<lambda>_. a) xs)) k s =
      (case collect (map (\<lambda>_. r s) xs) of Inl e \<Rightarrow> (Inl e, s) | Inr v \<Rightarrow> k v s)" for k
    by (rule then_run_pure) (rule Cons.IH)
  have "collect_actions (map (\<lambda>_. a) (x # xs)) s =
      (case r s of Inl e \<Rightarrow> (Inl e, s) | Inr v \<Rightarrow>
         then_run (collect_actions (map (\<lambda>_. a) xs)) (\<lambda>vs. lift (Inr (v # vs))) s)"
    by (simp add: then_run_pure [OF assms])
  also have "\<dots> = (collect (map (\<lambda>_. r s) (x # xs)), s)"
    by (simp add: step lift_apply and_then_def split: sum.splits)
  finally show ?case .
qed

lemma then_run_read_value:
  "then_run (then_run (read_attr name) (\<lambda>a. lift (value_of a))) k s =
     (case and_then (getattr s name) value_of of Inl e \<Rightarrow> (Inl e, s) | Inr v \<Rightarrow> k v s)"
  by (rule then_run_pure) (rule read_value)

lemma then_run_collect_read:
  "then_run (collect_actions (map (\<lambda>_. then_run (read_attr name) (\<lambda>a. lift (value_of a))) xs)) k s =
     (case collect (map (\<lambda>_. and_then (getattr s name) value_of) xs) of
        Inl e \<Rightarrow> (Inl e, s) | Inr v \<Rightarrow> k v s)"
  by (rule then_run_pure) (rule collect_actions_pure, rule read_value)

text \<open>The value \<open>call\<close> returns is \<open>call_value\<close>.\<close>

lemma call_eq: "call self x = (call_value self x, self)"
proof (cases "rank x = 2")
  case True
  then show ?thesis
    by (simp add: call_def call_value_def batched_args_def then_run_lift then_run_read_attr
        then_run_collect_read lift_apply and_then_def split: sum.splits)
next
  case False
  then show ?thesis
    by (simp add: call_def call_value_def then_run_lift then_run_read_attr
        then_run_read_value lift_apply and_then_def split: sum.splits)
qed

text \<open>C1. The claim says that the output of the layer on an unbatched input is
  \<open>max(W x + b, 0)\<close>. The code does not return there: for every layer the constructor
  builds and every input of rank 1, the second branch of \<^verbatim>\<open>call\<close> reads the attribute
  \<^verbatim>\<open>layer\<close>, which no layer has (the adapter is stored as \<^verbatim>\<open>cvxpy_layer\<close>), and the call
  raises.\<close>

theorem call_unbatched_raises:
  "fst (call (ReluLayer_init W_normal b_normal CvxpyLayer) (T1 x)) = Inl (AttributeError ''layer'')"
  by (simp add: call_eq call_value_def ReluLayer_init_def getattr_def)

lemmas run_layer =
  sample_layer_def call_eq call_value_def batched_args_def ReluLayer_init_def getattr_def
  value_of_def invoke_def index_def upt_rec relu_def vadd_def matvec_def dot_def inner_def

text \<open>C2. The shape contract holds on the batched path and fails on the unbatched
  one: on the sample layer (two inputs, two outputs) a batch of shape \<open>(3, 2)\<close> gives an
  output of shape \<open>(3, 2)\<close>, and an input of shape \<open>(2)\<close> gives no output but the
  attribute error.\<close>

theorem call_shape_batched_only:
  "map_sum id shape (fst (call sample_layer (T2 [[1, 2], [3, 4], [0, 0]]))) = Inr [3, 2] \<and>
   map_sum id shape (fst (call sample_layer (T1 [1, 2]))) = Inl (AttributeError ''layer'')"
  by (simp add: run_layer)

text \<open>C3. Row 0 of the output on a batch is \<open>max(W x + b, 0)\<close> for row 0 of the
  batch, but the layer called on that row alone raises: the two are not equal.\<close>

theorem call_batch_row_differs_from_unbatched:
  "fst (call sample_layer (T2 [[1, 2], [3, 4]])) = Inr (T2 [[0, 3], [0, 7]]) \<and>
   index (unstack (T2 [[0, 3], [0, 7]])) 0 = Inr (T1 [0, 3]) \<and>
   index (unstack (T2 [[1, 2], [3, 4]])) 0 = Inr (T1 [1, 2]) \<and>
   fst (call sample_layer (T1 [1, 2])) = Inl (AttributeError ''layer'')"
  by (simp add: run_layer)

text \<open>C7. On the batched path, for a batch of \<open>B\<close> rows, the arguments passed to the
  adapter are a stack of exactly \<open>B\<close> copies of \<open>W\<close>, a stack of exactly \<open>B\<close> copies of
  \<open>b\<close>, and the input: every slice of the first is \<open>W\<close>, every slice of the second is
  \<open>b\<close>. The variables are of rank at most 2, as those the constructor creates are.\<close>

theorem batched_args_replicate:
  assumes "self ''W'' = Some (Variable W)" and "self ''b'' = Some (Variable b)"
    and "rank W < 3" and "rank b < 3"
  shows "\<exists>Wstack bstack.
     index (shape (T2 xs)) 0 = Inr (length xs) \<and>
     batched_args self (length xs) (T2 xs) = Inr [Wstack, bstack, T2 xs] \<and>
     unstack Wstack = replicate (length xs) W \<and>
     unstack bstack = replicate (length xs) b \<and>
     call_value self (T2 xs) =
       and_then (getattr self ''cvxpy_layer'') (\<lambda>layer.
       and_then (invoke layer [Wstack, bstack, T2 xs]) (\<lambda>outs. index outs 0))"
proof -
  obtain Wstack where W: "stack (replicate (length xs) W) = Inr Wstack"
      "unstack Wstack = replicate (length xs) W"
    using stack_replicate [OF assms(3)] by blast
  obtain bstack where b: "stack (replicate (length xs) b) = Inr bstack"
      "unstack bstack = replicate (length xs) b"
    using stack_replicate [OF assms(4)] by blast
  have size: "index (shape (T2 xs)) 0 = Inr (length xs)"
    by (simp add: index_def)
  have args: "batched_args self (length xs) (T2 xs) = Inr [Wstack, bstack, T2 xs]"
    by (simp add: batched_args_eq [OF assms(1,2)] W(1) b(1))
  have "call_value self (T2 xs) =
       and_then (getattr self ''cvxpy_layer'') (\<lambda>layer.
       and_then (invoke layer [Wstack, bstack, T2 xs]) (\<lambda>outs. index outs 0))"
    by (simp add: call_value_def index_def args)
  with size args W(2) b(2) show ?thesis by blast
qed

theorem batched_args_replicate_witness:
  "\<exists>Wstack bstack.
     index (shape (T2 [[1, 2], [3, 4]])) 0 = Inr (length [[1, 2], [3, 4::real]]) \<and>
     batched_args sample_layer (length [[1, 2], [3, 4::real]]) (T2 [[1, 2], [3, 4]]) =
       Inr [Wstack, bstack, T2 [[1, 2], [3, 4]]] \<and>
     unstack Wstack = replicate (length [[1, 2], [3, 4::real]]) (T2 [[1, -1], [2, 0]]) \<and>
     unstack bstack = replicate (length [[1, 2], [3, 4::real]]) (T1 [0, 1]) \<and>
     call_value sample_layer (T2 [[1, 2], [3, 4]]) =
       and_then (getattr sample_layer ''cvxpy_layer'') (\<lambda>layer.
       and_then (invoke layer [Wstack, bstack, T2 [[1, 2], [3, 4]]]) (\<lambda>outs. index outs 0))"
  using batched_args_replicate [of sample_layer "T2 [[1, -1], [2, 0]]" "T1 [0, 1]" "[[1, 2], [3, 4]]"]
  by (simp add: sample_layer_def ReluLayer_init_def)

section \<open>The batched path under the adapter's contract\<close>

lemma relu_adapter_contract: "adapter_contract m n relu_adapter"
  unfolding adapter_contract_def
proof (intro conjI allI impI)
  fix W :: "real list list" and b x :: "real list"
  assume "is_mat n m W \<and> length b = n \<and> length x = m"
  then have "is_optimum m n W b x (relu (vadd (matvec W x) b))"
    by (simp add: is_optimum_iff_relu)
  then show "\<exists>z. relu_adapter [T2 W, T1 b, T1 x] = Inr [T1 z] \<and> is_optimum m n W b x z"
    by simp
next
  fix Ws :: "real list list list" and bs xs :: "real list list"
  assume a: "Ws \<noteq> [] \<and> length bs = length Ws \<and> length xs = length Ws \<and>
          list_all (is_mat n m) Ws \<and> list_all (\<lambda>b. length b = n) bs \<and>
          list_all (\<lambda>x. length x = m) xs"
  let ?zs = "map (\<lambda>(W, b, x). relu (vadd (matvec W x) b)) (zip Ws (zip bs xs))"
  have len: "length ?zs = length Ws" using a by simp
  have "is_optimum m n (Ws ! i) (bs ! i) (xs ! i) (?zs ! i)" if "i < length Ws" for i
  proof -
    from that a have "is_mat n m (Ws ! i)" "length (bs ! i) = n"
      by (simp_all add: list_all_length)
    moreover from that a have "?zs ! i = relu (vadd (matvec (Ws ! i) (xs ! i)) (bs ! i))"
      by simp
    ultimately show ?thesis by (simp add: is_optimum_iff_relu)
  qed
  with len show "\<exists>zs. relu_adapter [T3 Ws, T2 bs, T2 xs] = Inr [T2 zs] \<and> length zs = length Ws \<and>
           (\<forall>i < length Ws. is_optimum m n (Ws ! i) (bs ! i) (xs ! i) (zs ! i))"
    by simp
qed

lemma call_value_batched:
  assumes W: "self ''W'' = Some (Variable (T2 W))" "is_mat n m W"
    and b: "self ''b'' = Some (Variable (T1 b))" "length b = n"
    and f: "self ''cvxpy_layer'' = Some (Callable f)" "adapter_contract m n f"
    and xs: "xs \<noteq> []" "list_all (\<lambda>x. length x = m) xs"
  shows "call_value self (T2 xs) = Inr (T2 (map (\<lambda>x. relu (vadd (matvec W x) b)) xs))"
proof -
  let ?B = "length xs"
  have pos: "0 < ?B" using xs(1) by simp
  have args: "batched_args self ?B (T2 xs) = Inr [T3 (replicate ?B W), T2 (replicate ?B b), T2 xs]"
    using pos by (simp add: batched_args_eq [OF W(1) b(1)] stack_replicate_T2 stack_replicate_T1)
  have pre: "replicate ?B W \<noteq> [] \<and> length (replicate ?B b) = length (replicate ?B W) \<and>
      length xs = length (replicate ?B W) \<and> list_all (is_mat n m) (replicate ?B W) \<and>
      list_all (\<lambda>b. length b = n) (replicate ?B b) \<and> list_all (\<lambda>x. length x = m) xs"
    using pos W(2) b(2) xs(2) by (simp add: list_all_iff)
  from f(2) pre obtain zs where
    out: "f [T3 (replicate ?B W), T2 (replicate ?B b), T2 xs] = Inr [T2 zs]"
    and len: "length zs = ?B"
    and opt: "\<forall>i < ?B. is_optimum m n (replicate ?B W ! i) (replicate ?B b ! i) (xs ! i) (zs ! i)"
    unfolding adapter_contract_def by (metis length_replicate)
  have "zs = map (\<lambda>x. relu (vadd (matvec W x) b)) xs"
  proof (rule nth_equalityI)
    show "length zs = length (map (\<lambda>x. relu (vadd (matvec W x) b)) xs)"
      using len by simp
  next
    fix i assume "i < length zs"
    with len have i: "i < ?B" by simp
    with opt have "is_optimum m n W b (xs ! i) (zs ! i)" by simp
    with W(2) b(2) have "zs ! i = relu (vadd (matvec W (xs ! i)) b)"
      by (simp add: is_optimum_iff_relu)
    with i show "zs ! i = map (\<lambda>x. relu (vadd (matvec W x) b)) xs ! i" by simp
  qed
  with out args f(1) show ?thesis
    by (simp add: call_value_def getattr_def invoke_def index_def)
qed

lemma call_value_ok:
  assumes "layer_ok m n self" and "xs \<noteq> []" and "list_all (\<lambda>x. length x = m) xs"
  shows "\<exists>zs. call_value self (T2 xs) = Inr (T2 zs) \<and> zs \<noteq> [] \<and> is_mat (length xs) n zs"
proof -
  from assms(1) obtain W b f where
    l: "self ''W'' = Some (Variable (T2 W))" "is_mat n m W"
       "self ''b'' = Some (Variable (T1 b))" "length b = n"
       "self ''cvxpy_layer'' = Some (Callable f)" "adapter_contract m n f"
    unfolding layer_ok_def by blast
  have "call_value self (T2 xs) = Inr (T2 (map (\<lambda>x. relu (vadd (matvec W x) b)) xs))"
    using l assms(2,3) by (rule call_value_batched)
  moreover have "is_mat (length xs) n (map (\<lambda>x. relu (vadd (matvec W x) b)) xs)"
    using l(2,4) by (simp add: is_mat_def list_all_iff)
  ultimately show ?thesis using assms(2) by simp
qed

section \<open>The forward pass of the model\<close>

lemma read_value_frame: "snd (then_run (read_attr name) (\<lambda>a. lift (value_of a)) s) = s"
  by (intro then_run_frame read_attr_frame lift_frame)

lemma collect_read_frame:
  "snd (collect_actions (map (\<lambda>_. then_run (read_attr name) (\<lambda>a. lift (value_of a))) xs) s) = s"
  by (rule collect_actions_frame) (auto simp: read_value_frame)

lemma call_frame: "snd (call self x) = self"
proof (cases "rank x = 2")
  case True
  show ?thesis
    by (simp only: call_def True if_True simp_thms)
      (intro then_run_frame lift_frame read_attr_frame collect_read_frame)
next
  case False
  show ?thesis
    by (simp only: call_def False if_False)
      (intro then_run_frame lift_frame read_attr_frame read_value_frame)
qed

lemma model_call_layers:
  "relu1 (snd (model_call M x)) = relu1 M \<and> relu2 (snd (model_call M x)) = relu2 M"
  by (simp add: model_call_def call_eq Let_def split_beta split: sum.splits)

lemma loss_layers:
  "relu1 (snd (loss M X Y)) = relu1 M \<and> relu2 (snd (loss M X Y)) = relu2 M"
  by (simp add: loss_def model_call_layers split_beta Let_def split: sum.splits)

lemma vecmat_length [simp]: "length (vecmat r K u) = u"
  by (simp add: vecmat_def)

lemma Dense_call_ok:
  assumes "dense_ok d D" and "is_mat N d X" and "X \<noteq> []"
  shows "\<exists>P D'. Dense_call D (T2 X) = (Inr (T2 P), D') \<and> is_mat N 1 P \<and>
     dense_ok d D' \<and> weights D' \<noteq> None"
proof -
  from assms(2,3) have width: "inner X = d"
    by (cases X) (simp_all add: inner_def is_mat_def)
  define D' where "D' = Dense_build D d"
  from assms(1) have "\<exists>K c. weights D' = Some (K, c) \<and> has_shape [d, 1] K \<and> has_shape [1] c"
    by (cases "weights D") (auto simp: D'_def Dense_build_def dense_ok_def)
  then obtain K c where w: "weights D' = Some (K, c)" "has_shape [d, 1] K" "has_shape [1] c"
    by blast
  from w(2) obtain Km where K: "K = T2 Km" "is_mat d 1 Km"
    by (cases K) simp_all
  from w(3) obtain cv where c: "c = T1 cv" "length cv = 1"
    by (cases c) simp_all
  have units: "units D' = 1"
    using assms(1) by (cases "weights D") (simp_all add: D'_def Dense_build_def dense_ok_def)
  have ok: "dense_ok d D'"
    using w units by (simp add: dense_ok_def)
  have rows: "list_all (\<lambda>r. length r = length Km) X"
    using assms(2) K(2) by (simp add: is_mat_def)
  have cols: "list_all (\<lambda>k. length k = length cv) Km"
    using K(2) c(2) by (simp add: is_mat_def)
  have "Dense_call D (T2 X) = (Inr (T2 (map (\<lambda>r. vadd (vecmat r Km (length cv)) cv) X)), D')"
    using rows cols by (simp add: Dense_call_def width D'_def [symmetric] w(1) K(1) c(1))
  moreover have "is_mat N 1 (map (\<lambda>r. vadd (vecmat r Km (length cv)) cv) X)"
    using assms(2) c(2) by (simp add: is_mat_def list_all_iff)
  ultimately show ?thesis using ok w(1) by auto
qed

lemma model_call_ok:
  assumes "model_ok d0 d1 d2 M" and "Xs \<noteq> []" and "list_all (\<lambda>x. length x = d0) Xs"
  shows "\<exists>P M'. model_call M (T2 Xs) = (Inr (T2 P), M') \<and> is_mat (length Xs) 1 P \<and>
     model_ok d0 d1 d2 M' \<and> weights (dense M') \<noteq> None"
proof -
  from assms(1) have l1: "layer_ok d0 d1 (relu1 M)" and l2: "layer_ok d1 d2 (relu2 M)"
    and D: "dense_ok d2 (dense M)"
    by (simp_all add: model_ok_def)
  from call_value_ok [OF l1 assms(2,3)] obtain h1 where
    h1: "call_value (relu1 M) (T2 Xs) = Inr (T2 h1)" "h1 \<noteq> []" "is_mat (length Xs) d1 h1"
    by blast
  from h1(3) have "list_all (\<lambda>x. length x = d1) h1" and len1: "length h1 = length Xs"
    by (simp_all add: is_mat_def)
  from call_value_ok [OF l2 h1(2) this(1)] obtain h2 where
    h2: "call_value (relu2 M) (T2 h1) = Inr (T2 h2)" "h2 \<noteq> []" "is_mat (length h1) d2 h2"
    by blast
  from h2(3) len1 have "is_mat (length Xs) d2 h2" by simp
  from Dense_call_ok [OF D this h2(2)] obtain P D' where
    P: "Dense_call (dense M) (T2 h2) = (Inr (T2 P), D')" "is_mat (length Xs) 1 P"
       "dense_ok d2 D'" "weights D' \<noteq> None"
    by blast
  have "model_call M (T2 Xs) = (Inr (T2 P), M\<lparr>dense := D'\<rparr>)"
    by (simp add: model_call_def call_eq h1(1) h2(1) P(1))
  moreover have "model_ok d0 d1 d2 (M\<lparr>dense := D'\<rparr>)"
    using l1 l2 P(3) by (simp add: model_ok_def)
  ultimately show ?thesis using P(2,4) by auto
qed

section \<open>The loss\<close>

lemma sum_list_map2_nth:
  assumes "length xs = length ys"
  shows "sum_list (map2 f xs ys) = (\<Sum>i < length xs. f (xs ! i) (ys ! i))"
proof -
  have "sum_list (map2 f xs ys) = (\<Sum>i = 0..<length (map2 f xs ys). map2 f xs ys ! i)"
    by (rule sum_list_sum_nth)
  also have "\<dots> = (\<Sum>i = 0..<length xs. f (xs ! i) (ys ! i))"
    using assms by (intro sum.cong) simp_all
  finally show ?thesis by (simp add: atLeast0LessThan)
qed

lemma reduce_sum_squared_difference:
  assumes "list_all2 (\<lambda>r s. length r = length s) Ys P"
  shows "reduce_sum (tensor_map (\<lambda>t. t\<^sup>2) (T2 (map2 (\<lambda>r s. map2 (-) r s) Ys P))) =
     (\<Sum>i < length Ys. \<Sum>j < length (Ys ! i). (Ys ! i ! j - P ! i ! j)\<^sup>2)"
proof -
  from assms have len: "length Ys = length P"
    and rows: "\<And>i. i < length Ys \<Longrightarrow> length (Ys ! i) = length (P ! i)"
    by (simp_all add: list_all2_conv_all_nth)
  have "reduce_sum (tensor_map (\<lambda>t. t\<^sup>2) (T2 (map2 (\<lambda>r s. map2 (-) r s) Ys P))) =
      sum_list (map2 (\<lambda>r s. sum_list (map2 (\<lambda>a b. (a - b)\<^sup>2) r s)) Ys P)"
    by (simp add: comp_def split_def)
  also have "\<dots> = (\<Sum>i < length Ys. sum_list (map2 (\<lambda>a b. (a - b)\<^sup>2) (Ys ! i) (P ! i)))"
    using len by (rule sum_list_map2_nth)
  also have "\<dots> = (\<Sum>i < length Ys. \<Sum>j < length (Ys ! i). (Ys ! i ! j - P ! i ! j)\<^sup>2)"
    by (intro sum.cong refl sum_list_map2_nth rows) simp
  finally show ?thesis .
qed

text \<open>C6. The loss of an iteration is the mean squared error between the targets and
  the predictions of the model: the sum over all entries of \<open>(Y - model(X))\<^sup>2\<close> divided by
  the number of rows of \<open>X\<close>.\<close>

theorem loss_is_mean_squared_error:
  assumes "Xs \<noteq> []" and "fst (model_call M (T2 Xs)) = Inr (T2 P)"
    and "list_all2 (\<lambda>r s. length r = length s) Ys P"
  shows "fst (loss M (T2 Xs) (T2 Ys)) = Inr (mean_squared_error (length Xs) Ys P)"
proof -
  obtain M' where call: "model_call M (T2 Xs) = (Inr (T2 P), M')"
    using assms(2) by (cases "model_call M (T2 Xs)") simp
  have "fst (loss M (T2 Xs) (T2 Ys)) =
      Inr (1 / real (length Xs) *
        reduce_sum (tensor_map (\<lambda>t. t\<^sup>2) (T2 (map2 (\<lambda>r s. map2 (-) r s) Ys P))))"
    using assms(1,3) by (simp add: loss_def index_def call)
  also have "\<dots> = Inr (mean_squared_error (length Xs) Ys P)"
    unfolding reduce_sum_squared_difference [OF assms(3)] mean_squared_error_def by simp
  finally show ?thesis .
qed

lemmas run_model =
  sample_model_def Sequential_init_def Dense_init_def Dense_build_def model_call_def
  Dense_call_def vecmat_def run_layer [unfolded sample_layer_def]

lemma sample_model_call:
  "fst (model_call sample_model (T2 [[1, 2], [3, 4], [0, 0]])) = Inr (T2 [[1], [1], [1]])"
  by (simp add: run_model)

theorem loss_is_mean_squared_error_witness:
  "fst (loss sample_model (T2 [[1, 2], [3, 4], [0, 0]]) (T2 [[3], [2], [1]])) =
     Inr (mean_squared_error (length [[1, 2], [3, 4], [0, 0::real]]) [[3], [2], [1]] [[1], [1], [1]]) \<and>
   mean_squared_error (length [[1, 2], [3, 4], [0, 0::real]]) [[3], [2], [1]] [[1], [1], [1]] = 5 / 3"
  using loss_is_mean_squared_error
    [of "[[1, 2], [3, 4], [0, 0]]" sample_model "[[1], [1], [1]]" "[[3], [2], [1]]"]
  by (simp add: sample_model_call mean_squared_error_def lessThan_Suc numeral_3_eq_3)

section \<open>One iteration of the training loop\<close>

lemma loss_ok:
  assumes "model_ok d0 d1 d2 M" and "Xs \<noteq> []" and "list_all (\<lambda>x. length x = d0) Xs"
    and "has_shape [length Xs, 1] Y"
  shows "\<exists>l M'. loss M (T2 Xs) Y = (Inr l, M') \<and> model_ok d0 d1 d2 M' \<and>
     weights (dense M') \<noteq> None"
proof -
  from model_call_ok [OF assms(1-3)] obtain P M' where
    P: "model_call M (T2 Xs) = (Inr (T2 P), M')" "is_mat (length Xs) 1 P"
       "model_ok d0 d1 d2 M'" "weights (dense M') \<noteq> None"
    by blast
  from assms(4) obtain Ys where Y: "Y = T2 Ys" "is_mat (length Xs) 1 Ys"
    by (cases Y) simp_all
  from Y(2) P(2) have "list_all2 (\<lambda>r s. length r = length s) Ys P"
    by (simp add: is_mat_def list_all2_conv_all_nth list_all_length)
  with assms(2) have "\<exists>l. loss M (T2 Xs) Y = (Inr l, M')"
    by (simp add: loss_def index_def P(1) Y(1))
  with P(3,4) show ?thesis by blast
qed

lemma variables_ok:
  assumes "model_ok d0 d1 d2 M" and "weights (dense M) \<noteq> None"
  shows "\<exists>W1 b1 W2 b2 K c. variables M = Inr [W1, b1, W2, b2, K, c] \<and>
     has_shape [d1, d0] W1 \<and> has_shape [d1] b1 \<and> has_shape [d2, d1] W2 \<and> has_shape [d2] b2 \<and>
     has_shape [d2, 1] K \<and> has_shape [1] c"
proof -
  from assms(1) obtain W1 b1 where
    l1: "relu1 M ''W'' = Some (Variable (T2 W1))" "is_mat d1 d0 W1"
        "relu1 M ''b'' = Some (Variable (T1 b1))" "length b1 = d1"
    unfolding model_ok_def layer_ok_def by blast
  from assms(1) obtain W2 b2 where
    l2: "relu2 M ''W'' = Some (Variable (T2 W2))" "is_mat d2 d1 W2"
        "relu2 M ''b'' = Some (Variable (T1 b2))" "length b2 = d2"
    unfolding model_ok_def layer_ok_def by blast
  from assms obtain K c where
    D: "weights (dense M) = Some (K, c)" "has_shape [d2, 1] K" "has_shape [1] c"
    unfolding model_ok_def dense_ok_def by (cases "weights (dense M)") auto
  have "variables M = Inr [T2 W1, T1 b1, T2 W2, T1 b2, K, c]"
    by (simp add: variables_def getattr_def value_of_def l1(1,3) l2(1,3) D(1))
  with l1(2,4) l2(2,4) D(2,3) show ?thesis by simp
qed

lemma assign_layer_eq:
  "assign_layer W b self = (Inr (), self(''W'' \<mapsto> Variable W, ''b'' \<mapsto> Variable b))"
  by (simp add: assign_layer_def then_run_def write_attr_def)

lemma layer_ok_assign:
  assumes "layer_ok m n self" and "has_shape [n, m] W" and "has_shape [n] b"
  shows "layer_ok m n (snd (assign_layer W b self))"
proof -
  from assms(2) obtain Wm where W: "W = T2 Wm" "is_mat n m Wm"
    by (cases W) simp_all
  from assms(3) obtain bv where b: "b = T1 bv" "length bv = n"
    by (cases b) simp_all
  from assms(1) obtain f where "self ''cvxpy_layer'' = Some (Callable f)" "adapter_contract m n f"
    unfolding layer_ok_def by blast
  with W b show ?thesis
    unfolding layer_ok_def assign_layer_eq by simp
qed

lemma assign_variables_ok:
  assumes "model_ok d0 d1 d2 M" and "weights (dense M) \<noteq> None"
    and "has_shape [d1, d0] W1" and "has_shape [d1] b1"
    and "has_shape [d2, d1] W2" and "has_shape [d2] b2"
    and "has_shape [d2, 1] K" and "has_shape [1] c"
  shows "\<exists>M'. assign_variables M [W1, b1, W2, b2, K, c] = Inr M' \<and> model_ok d0 d1 d2 M'
     \<and> weights (dense M') \<noteq> None"
proof -
  from assms(1) have l1: "layer_ok d0 d1 (relu1 M)" and l2: "layer_ok d1 d2 (relu2 M)"
    and D: "units (dense M) = 1"
    by (simp_all add: model_ok_def dense_ok_def)
  from assms(2) obtain w where w: "weights (dense M) = Some w" by blast
  have a1: "layer_ok d0 d1 (snd (assign_layer W1 b1 (relu1 M)))"
    using l1 assms(3,4) by (rule layer_ok_assign)
  have a2: "layer_ok d1 d2 (snd (assign_layer W2 b2 (relu2 M)))"
    using l2 assms(5,6) by (rule layer_ok_assign)
  have "assign_variables M [W1, b1, W2, b2, K, c] =
      Inr (M\<lparr>relu1 := snd (assign_layer W1 b1 (relu1 M)),
             relu2 := snd (assign_layer W2 b2 (relu2 M)),
             dense := (dense M)\<lparr>weights := Some (K, c)\<rparr>\<rparr>)"
    by (simp add: assign_variables_def w)
  with a1 a2 D assms(7,8) show ?thesis
    by (simp add: model_ok_def dense_ok_def)
qed

lemma list_all2_six:
  assumes "list_all2 R [a, b, c, d, e, f] ys"
  shows "\<exists>a' b' c' d' e' f'. ys = [a', b', c', d', e', f'] \<and>
     R a a' \<and> R b b' \<and> R c c' \<and> R d d' \<and> R e e' \<and> R f f'"
  using assms by (auto simp: list_all2_Cons1)

lemma train_step_ok:
  assumes M: "model_ok d0 d1 d2 (net s)"
    and opt: "keeps_shapes apply_gradients" and grad: "one_per_variable gradient"
    and X: "Xs \<noteq> []" "list_all (\<lambda>x. length x = d0) Xs" and Y: "has_shape [length Xs, 1] Y"
  shows "\<exists>s' l. train_step gradient apply_gradients (T2 Xs) Y s = Inr s' \<and>
     model_ok d0 d1 d2 (net s') \<and> fst (loss (net s) (T2 Xs) Y) = Inr l \<and>
     console s' = console s @ [l]"
proof -
  from loss_ok [OF M X Y] obtain l M1 where
    l: "loss (net s) (T2 Xs) Y = (Inr l, M1)" and M1: "model_ok d0 d1 d2 M1"
    and built: "weights (dense M1) \<noteq> None"
    by blast
  from variables_ok [OF M1 built] obtain W1 b1 W2 b2 K c where
    vs: "variables M1 = Inr [W1, b1, W2, b2, K, c]"
    and sh: "has_shape [d1, d0] W1" "has_shape [d1] b1" "has_shape [d2, d1] W2" "has_shape [d2] b2"
      "has_shape [d2, 1] K" "has_shape [1] c"
    by blast
  define vars where "vars = [W1, b1, W2, b2, K, c]"
  define r where "r = apply_gradients (opt s) (zip (gradient vars) vars)"
  from grad have "length (gradient vars) = length vars"
    unfolding one_per_variable_def by (rule spec)
  then have snd: "map snd (zip (gradient vars) vars) = vars"
    by (rule map_snd_zip)
  have "list_all2 (\<lambda>v v'. \<forall>sh. has_shape sh v \<longrightarrow> has_shape sh v')
      (map snd (zip (gradient vars) vars)) (fst r)"
    using opt unfolding keeps_shapes_def r_def by (elim allE)
  then have "list_all2 (\<lambda>v v'. \<forall>sh. has_shape sh v \<longrightarrow> has_shape sh v') vars (fst r)"
    by (simp only: snd)
  then have "list_all2 (\<lambda>v v'. \<forall>sh. has_shape sh v \<longrightarrow> has_shape sh v')
      [W1, b1, W2, b2, K, c] (fst r)"
    by (simp only: vars_def)
  from list_all2_six [OF this] obtain W1' b1' W2' b2' K' c' where
    new: "fst r = [W1', b1', W2', b2', K', c']"
    and keep: "\<forall>sh. has_shape sh W1 \<longrightarrow> has_shape sh W1'"
      "\<forall>sh. has_shape sh b1 \<longrightarrow> has_shape sh b1'"
      "\<forall>sh. has_shape sh W2 \<longrightarrow> has_shape sh W2'"
      "\<forall>sh. has_shape sh b2 \<longrightarrow> has_shape sh b2'"
      "\<forall>sh. has_shape sh K \<longrightarrow> has_shape sh K'"
      "\<forall>sh. has_shape sh c \<longrightarrow> has_shape sh c'"
    by blast
  have s1: "has_shape [d1, d0] W1'" using keep(1) sh(1) by blast
  have s2: "has_shape [d1] b1'" using keep(2) sh(2) by blast
  have s3: "has_shape [d2, d1] W2'" using keep(3) sh(3) by blast
  have s4: "has_shape [d2] b2'" using keep(4) sh(4) by blast
  have s5: "has_shape [d2, 1] K'" using keep(5) sh(5) by blast
  have s6: "has_shape [1] c'" using keep(6) sh(6) by blast
  from assign_variables_ok [OF M1 built s1 s2 s3 s4 s5 s6] obtain M' where
    M': "assign_variables M1 [W1', b1', W2', b2', K', c'] = Inr M'" "model_ok d0 d1 d2 M'"
    by blast
  have "train_step gradient apply_gradients (T2 Xs) Y s =
      (let (new, opt') = r in
       and_then (assign_variables M1 new) (\<lambda>M'.
       Inr \<lparr>net = M', opt = opt', console = console s @ [l]\<rparr>))"
    by (simp add: train_step_def l vs r_def vars_def)
  also have "\<dots> = Inr \<lparr>net = M', opt = snd r, console = console s @ [l]\<rparr>"
    using new M'(1) by (simp add: split_beta)
  finally show ?thesis using M'(2) l by simp
qed

section \<open>The whole loop\<close>

text \<open>A loop whose body always returns, keeps a condition and prints one value runs
  its body once per element of the list, each time on the state the run before left,
  and prints one line per run.\<close>

lemma for_loop_chain:
  assumes step: "\<And>i s. good s \<Longrightarrow>
      \<exists>s' l. body i s = Inr s' \<and> good s' \<and> printed s = Inr l \<and> console s' = console s @ [l]"
    and "good s"
  shows "\<exists>ss ls. length ss = Suc (length is) \<and> length ls = length is \<and> ss ! 0 = s \<and>
     (\<forall>i<length is. body (is ! i) (ss ! i) = Inr (ss ! Suc i) \<and>
        printed (ss ! i) = Inr (ls ! i) \<and> console (ss ! Suc i) = console (ss ! i) @ [ls ! i]) \<and>
     for_loop is body s = Inr (ss ! length is) \<and> console (ss ! length is) = console s @ ls"
  using assms(2)
proof (induction "is" arbitrary: s)
  case Nil
  show ?case by (rule exI [of _ "[s]"], rule exI [of _ "[]"]) simp
next
  case (Cons j "is")
  from step [OF Cons.prems, of j] obtain s1 l where
    s1: "body j s = Inr s1" "good s1" "printed s = Inr l" "console s1 = console s @ [l]"
    by blast
  from Cons.IH [OF s1(2)] obtain ss ls where
    len: "length ss = Suc (length is)" "length ls = length is" and first: "ss ! 0 = s1"
    and steps: "\<And>i. i < length is \<Longrightarrow> body (is ! i) (ss ! i) = Inr (ss ! Suc i) \<and>
        printed (ss ! i) = Inr (ls ! i) \<and> console (ss ! Suc i) = console (ss ! i) @ [ls ! i]"
    and final: "for_loop is body s1 = Inr (ss ! length is)"
      "console (ss ! length is) = console s1 @ ls"
    by blast
  have "body ((j # is) ! i) ((s # ss) ! i) = Inr ((s # ss) ! Suc i) \<and>
        printed ((s # ss) ! i) = Inr ((l # ls) ! i) \<and>
        console ((s # ss) ! Suc i) = console ((s # ss) ! i) @ [(l # ls) ! i]"
    if "i < length (j # is)" for i
  proof (cases i)
    case 0
    then show ?thesis by (simp add: s1 first)
  next
    case (Suc k)
    with that have "k < length is" by simp
    from steps [OF this] Suc show ?thesis by simp
  qed
  moreover have "for_loop (j # is) body s = Inr ((s # ss) ! length (j # is))"
    by (simp add: s1(1) final(1))
  moreover have "console ((s # ss) ! length (j # is)) = console s @ (l # ls)"
    by (simp add: final(2) s1(4))
  moreover have "length (s # ss) = Suc (length (j # is))" "length (l # ls) = length (j # is)"
      "(s # ss) ! 0 = s"
    by (simp_all add: len)
  ultimately show ?case by blast
qed

text \<open>C5. The training loop runs exactly 25 iterations, each on the state the one
  before left, with no other exit: on a model in order, with an optimizer that keeps
  shapes and a non-empty batch, there are 26 states, from the starting state to the
  state the loop returns, each the result of one training step on the one before; every
  step prints exactly one line, the loss of the model it started with; and the 25 lines
  are what the run has added to the console.\<close>

theorem training_loop_runs_25_steps:
  assumes "model_ok d0 d1 d2 (net s)"
    and "keeps_shapes apply_gradients" and "one_per_variable gradient"
    and "Xs \<noteq> []" and "list_all (\<lambda>x. length x = d0) Xs" and "has_shape [length Xs, 1] Y"
  shows "\<exists>ss lines. length ss = 26 \<and> length lines = 25 \<and> ss ! 0 = s \<and>
     (\<forall>i<25. train_step gradient apply_gradients (T2 Xs) Y (ss ! i) = Inr (ss ! Suc i) \<and>
        fst (loss (net (ss ! i)) (T2 Xs) Y) = Inr (lines ! i) \<and>
        console (ss ! Suc i) = console (ss ! i) @ [lines ! i]) \<and>
     training_loop gradient apply_gradients (T2 Xs) Y s = Inr (ss ! 25) \<and>
     console (ss ! 25) = console s @ lines"
proof -
  let ?body = "\<lambda>_::nat. train_step gradient apply_gradients (T2 Xs) Y"
  have "\<exists>ss ls. length ss = Suc (length [0..<25::nat]) \<and> length ls = length [0..<25::nat] \<and>
     ss ! 0 = s \<and>
     (\<forall>i<length [0..<25::nat]. ?body ([0..<25] ! i) (ss ! i) = Inr (ss ! Suc i) \<and>
        fst (loss (net (ss ! i)) (T2 Xs) Y) = Inr (ls ! i) \<and>
        console (ss ! Suc i) = console (ss ! i) @ [ls ! i]) \<and>
     for_loop [0..<25] ?body s = Inr (ss ! length [0..<25::nat]) \<and>
     console (ss ! length [0..<25::nat]) = console s @ ls"
  proof (rule for_loop_chain [where good = "\<lambda>s. model_ok d0 d1 d2 (net s)"
        and printed = "\<lambda>s. fst (loss (net s) (T2 Xs) Y)"])
    fix i :: nat and t :: "'a trainer"
    assume "model_ok d0 d1 d2 (net t)"
    then show "\<exists>s' l. train_step gradient apply_gradients (T2 Xs) Y t = Inr s' \<and>
        model_ok d0 d1 d2 (net s') \<and> fst (loss (net t) (T2 Xs) Y) = Inr l \<and>
        console s' = console t @ [l]"
      using assms(2-6) by (rule train_step_ok)
  qed (rule assms(1))
  then show ?thesis
    unfolding training_loop_def by simp
qed

section \<open>The run on the small model\<close>

lemma layer_ok_init:
  assumes "has_shape [n, m] W_normal" and "has_shape [n] b_normal" and "adapter_contract m n f"
  shows "layer_ok m n (ReluLayer_init W_normal b_normal f)"
proof -
  from assms(1) obtain Wm where W: "W_normal = T2 Wm" "is_mat n m Wm"
    by (cases W_normal) simp_all
  from assms(2) obtain bv where b: "b_normal = T1 bv" "length bv = n"
    by (cases b_normal) simp_all
  have "is_mat n m (map (map g) Wm)" for g :: "real \<Rightarrow> real"
    using W(2) by (simp add: is_mat_def list_all_iff)
  with b(2) assms(3) show ?thesis
    unfolding layer_ok_def ReluLayer_init_def W(1) b(1) by simp
qed

lemma sample_model_ok: "model_ok 2 2 2 sample_model"
proof -
  have "layer_ok 2 2 (ReluLayer_init (T2 [[1000, -1000], [2000, 0]]) (T1 [0, 1000]) relu_adapter)"
    by (rule layer_ok_init) (simp_all add: is_mat_def relu_adapter_contract)
  then show ?thesis
    by (simp add: model_ok_def dense_ok_def sample_model_def Sequential_init_def Dense_init_def
        is_mat_def)
qed

lemma has_shape_tensor_map: "has_shape sh (tensor_map f v) = has_shape sh v"
  by (induction sh v rule: has_shape.induct) (simp_all add: is_mat_def list_all_iff)

lemma keeps_shapes_sample: "keeps_shapes sample_apply"
  unfolding keeps_shapes_def sample_apply_def
  by (simp add: list_all2_map1 list_all2_map2 list_all2_same has_shape_tensor_map split_beta)

lemma one_per_variable_sample: "one_per_variable sample_gradient"
  by (simp add: one_per_variable_def sample_gradient_def)

lemma sample_loss:
  "fst (loss sample_model (T2 [[1, 2], [3, 4], [0, 0]]) (T2 [[3], [2], [1]])) = Inr (5 / 3)"
proof -
  obtain M' where "model_call sample_model (T2 [[1, 2], [3, 4], [0, 0]]) = (Inr (T2 [[1], [1], [1]]), M')"
    using sample_model_call by (cases "model_call sample_model (T2 [[1, 2], [3, 4], [0, 0]])") simp
  then show ?thesis
    by (simp add: loss_def index_def)
qed

theorem training_loop_runs_25_steps_witness:
  "\<exists>ss lines. length ss = 26 \<and> length lines = 25 \<and> ss ! 0 = sample_trainer \<and>
     lines ! 0 = 5 / 3 \<and>
     (\<forall>i<25. train_step sample_gradient sample_apply (T2 [[1, 2], [3, 4], [0, 0]])
          (T2 [[3], [2], [1]]) (ss ! i) = Inr (ss ! Suc i) \<and>
        fst (loss (net (ss ! i)) (T2 [[1, 2], [3, 4], [0, 0]]) (T2 [[3], [2], [1]])) =
          Inr (lines ! i) \<and>
        console (ss ! Suc i) = console (ss ! i) @ [lines ! i]) \<and>
     training_loop sample_gradient sample_apply (T2 [[1, 2], [3, 4], [0, 0]])
       (T2 [[3], [2], [1]]) sample_trainer = Inr (ss ! 25) \<and>
     console (ss ! 25) = console sample_trainer @ lines"
proof -
  have M: "model_ok 2 2 2 (net sample_trainer)"
    by (simp add: sample_trainer_def sample_model_ok)
  have X: "[[1, 2], [3, 4], [0, 0::real]] \<noteq> []"
    "list_all (\<lambda>x. length x = 2) [[1, 2], [3, 4], [0, 0::real]]"
    by simp_all
  have Y: "has_shape [length [[1, 2], [3, 4], [0, 0::real]], 1] (T2 [[3], [2], [1]])"
    by (simp add: is_mat_def)
  from training_loop_runs_25_steps [OF M keeps_shapes_sample one_per_variable_sample X Y]
  obtain ss lines where
    r: "length ss = 26" "length lines = 25" "ss ! 0 = sample_trainer"
      "\<forall>i<25. train_step sample_gradient sample_apply (T2 [[1, 2], [3, 4], [0, 0]])
          (T2 [[3], [2], [1]]) (ss ! i) = Inr (ss ! Suc i) \<and>
        fst (loss (net (ss ! i)) (T2 [[1, 2], [3, 4], [0, 0]]) (T2 [[3], [2], [1]])) =
          Inr (lines ! i) \<and>
        console (ss ! Suc i) = console (ss ! i) @ [lines ! i]"
      "training_loop sample_gradient sample_apply (T2 [[1, 2], [3, 4], [0, 0]])
        (T2 [[3], [2], [1]]) sample_trainer = Inr (ss ! 25)"
      "console (ss ! 25) = console sample_trainer @ lines"
    by blast
  from r(4) have "fst (loss (net (ss ! 0)) (T2 [[1, 2], [3, 4], [0, 0]]) (T2 [[3], [2], [1]])) =
      Inr (lines ! 0)"
    by simp
  then have "lines ! 0 = 5 / 3"
    by (simp add: r(3) sample_trainer_def sample_loss)
  with r show ?thesis by blast
qed

section \<open>What a call and a training step change\<close>

lemma variables_read:
  assumes "variables M = Inr vs"
  shows "\<exists>W1 b1 W2 b2 others. vs = W1 # b1 # W2 # b2 # others \<and>
     relu1 M ''W'' = Some (Variable W1) \<and> relu1 M ''b'' = Some (Variable b1) \<and>
     relu2 M ''W'' = Some (Variable W2) \<and> relu2 M ''b'' = Some (Variable b2)"
  using assms
  by (auto simp: variables_def and_then_def getattr_def value_of_def
      split: sum.splits option.splits attr.splits)

lemma assign_variables_layers:
  assumes "assign_variables M new = Inr M'"
  shows "\<exists>W1 b1 W2 b2 others. new = W1 # b1 # W2 # b2 # others \<and>
     relu1 M' = (relu1 M)(''W'' \<mapsto> Variable W1, ''b'' \<mapsto> Variable b1) \<and>
     relu2 M' = (relu2 M)(''W'' \<mapsto> Variable W2, ''b'' \<mapsto> Variable b2)"
  using assms
  by (auto simp: assign_variables_def assign_layer_eq Let_def
      split: list.splits option.splits)

lemma train_step_assigns:
  assumes "train_step gradient apply_gradients X Y s = Inr s'"
  shows "\<exists>M vs. relu1 M = relu1 (net s) \<and> relu2 M = relu2 (net s) \<and> variables M = Inr vs \<and>
     assign_variables M (fst (apply_gradients (opt s) (zip (gradient vs) vs))) = Inr (net s')"
proof -
  obtain l M where lM: "loss (net s) X Y = (l, M)"
    by (cases "loss (net s) X Y")
  from loss_layers [of "net s" X Y] lM have layers: "relu1 M = relu1 (net s)" "relu2 M = relu2 (net s)"
    by simp_all
  from assms lM obtain vs where "variables M = Inr vs"
      "assign_variables M (fst (apply_gradients (opt s) (zip (gradient vs) vs))) = Inr (net s')"
    by (auto simp: train_step_def and_then_def split_beta Let_def split: sum.splits)
  with layers show ?thesis by blast
qed

lemma take_four:
  assumes "take k (a # b # c # d # xs) = a' # b' # c' # d' # ys"
  shows "a' = a \<and> b' = b \<and> c' = c \<and> d' = d"
  using assms by (auto simp: take_Cons' split: if_splits)

lemma train_step_other_attributes:
  assumes "train_step gradient apply_gradients X Y s = Inr s'"
    and "name \<noteq> ''W''" and "name \<noteq> ''b''"
  shows "relu1 (net s') name = relu1 (net s) name \<and> relu2 (net s') name = relu2 (net s) name"
proof -
  from train_step_assigns [OF assms(1)] obtain M vs where
    M: "relu1 M = relu1 (net s)" "relu2 M = relu2 (net s)"
    and a: "assign_variables M (fst (apply_gradients (opt s) (zip (gradient vs) vs))) = Inr (net s')"
    by blast
  from assign_variables_layers [OF a] obtain W1 b1 W2 b2 where
    "relu1 (net s') = (relu1 M)(''W'' \<mapsto> Variable W1, ''b'' \<mapsto> Variable b1)"
    "relu2 (net s') = (relu2 M)(''W'' \<mapsto> Variable W2, ''b'' \<mapsto> Variable b2)"
    by blast
  with M assms(2,3) show ?thesis by simp
qed

lemma train_step_without_update:
  assumes "train_step gradient apply_gradients X Y s = Inr s'"
    and same: "\<forall>st gvs. fst (apply_gradients st gvs) = map snd gvs"
  shows "relu1 (net s') = relu1 (net s) \<and> relu2 (net s') = relu2 (net s)"
proof -
  from train_step_assigns [OF assms(1)] obtain M vs where
    M: "relu1 M = relu1 (net s)" "relu2 M = relu2 (net s)"
    and vs: "variables M = Inr vs"
    and a: "assign_variables M (fst (apply_gradients (opt s) (zip (gradient vs) vs))) = Inr (net s')"
    by blast
  from variables_read [OF vs] obtain W1 b1 W2 b2 others where
    old: "vs = W1 # b1 # W2 # b2 # others"
      "relu1 M ''W'' = Some (Variable W1)" "relu1 M ''b'' = Some (Variable b1)"
      "relu2 M ''W'' = Some (Variable W2)" "relu2 M ''b'' = Some (Variable b2)"
    by blast
  from assign_variables_layers [OF a] obtain W1' b1' W2' b2' others' where
    new: "fst (apply_gradients (opt s) (zip (gradient vs) vs)) = W1' # b1' # W2' # b2' # others'"
      "relu1 (net s') = (relu1 M)(''W'' \<mapsto> Variable W1', ''b'' \<mapsto> Variable b1')"
      "relu2 (net s') = (relu2 M)(''W'' \<mapsto> Variable W2', ''b'' \<mapsto> Variable b2')"
    by blast
  from same have "fst (apply_gradients (opt s) (zip (gradient vs) vs)) =
      take (min (length (gradient vs)) (length vs)) vs"
    by (simp add: map_snd_zip_take)
  with new(1) old(1) have "take (min (length (gradient vs)) (length vs)) (W1 # b1 # W2 # b2 # others) =
      W1' # b1' # W2' # b2' # others'"
    by simp
  then have eq: "W1' = W1 \<and> b1' = b1 \<and> W2' = W2 \<and> b2' = b2"
    by (rule take_four)
  have "(relu1 M)(''W'' \<mapsto> Variable W1, ''b'' \<mapsto> Variable b1) = relu1 M"
    using old(2,3) by (simp add: map_upd_triv)
  moreover have "(relu2 M)(''W'' \<mapsto> Variable W2, ''b'' \<mapsto> Variable b2) = relu2 M"
    using old(4,5) by (simp add: map_upd_triv)
  ultimately show ?thesis using new(2,3) eq M by simp
qed

text \<open>C8. The method \<^verbatim>\<open>call\<close> leaves the object it is called on as it was: every
  action of its body reads, none assigns, so neither \<open>W\<close> nor \<open>b\<close> nor any other
  attribute changes. In an iteration of the training loop, which calls both layers, no
  attribute of a layer other than \<open>W\<close> and \<open>b\<close> changes, and with an optimizer that
  returns every variable as it got it the layers do not change at all: what changes
  \<open>W\<close> and \<open>b\<close> is the optimizer's step. The object holds the attributes the
  notebook's code sets; the bookkeeping Keras does around a call of a layer is not part
  of it.\<close>

theorem call_leaves_layer_unchanged:
  "snd (call self x) = self \<and>
   (\<forall>s'. train_step gradient apply_gradients X Y s = Inr s' \<longrightarrow>
      (\<forall>name. name \<noteq> ''W'' \<and> name \<noteq> ''b'' \<longrightarrow>
         relu1 (net s') name = relu1 (net s) name \<and> relu2 (net s') name = relu2 (net s) name)) \<and>
   ((\<forall>st gvs. fst (apply_gradients st gvs) = map snd gvs) \<longrightarrow>
      (\<forall>s'. train_step gradient apply_gradients X Y s = Inr s' \<longrightarrow>
         relu1 (net s') = relu1 (net s) \<and> relu2 (net s') = relu2 (net s)))"
proof (intro conjI allI impI)
  show "snd (call self x) = self" by (rule call_frame)
next
  fix s' name
  assume "train_step gradient apply_gradients X Y s = Inr s'" and "name \<noteq> ''W'' \<and> name \<noteq> ''b''"
  then show "relu1 (net s') name = relu1 (net s) name" "relu2 (net s') name = relu2 (net s) name"
    using train_step_other_attributes [of gradient apply_gradients X Y s s' name] by simp_all
next
  fix s'
  assume "\<forall>st gvs. fst (apply_gradients st gvs) = map snd gvs"
    and "train_step gradient apply_gradients X Y s = Inr s'"
  then show "relu1 (net s') = relu1 (net s)" "relu2 (net s') = relu2 (net s)"
    using train_step_without_update [of gradient apply_gradients X Y s s'] by simp_all
qed

lemma keeps_shapes_same: "keeps_shapes (\<lambda>st gvs. (map snd gvs, st))"
  by (simp add: keeps_shapes_def list_all2_same)

lemma sample_step_changes_W:
  assumes "train_step sample_gradient sample_apply X Y sample_trainer = Inr s'"
  shows "relu1 (net s') ''W'' = Some (Variable (T2 [[24 / 25, - (26 / 25)], [49 / 25, - (1 / 25)]]))"
proof -
  from train_step_assigns [OF assms] obtain M vs where
    M: "relu1 M = relu1 (net sample_trainer)" and vs: "variables M = Inr vs"
    and a: "assign_variables M (fst (sample_apply (opt sample_trainer) (zip (sample_gradient vs) vs))) =
      Inr (net s')"
    by blast
  from variables_read [OF vs] obtain W1 others where
    old: "vs = W1 # others" "relu1 M ''W'' = Some (Variable W1)"
    by blast
  from old(2) M have W1: "W1 = T2 [[1, -1], [2, 0]]"
    by (simp add: sample_trainer_def sample_model_def Sequential_init_def ReluLayer_init_def)
  from assign_variables_layers [OF a] obtain W1' b1' others' where
    new: "fst (sample_apply (opt sample_trainer) (zip (sample_gradient vs) vs)) = W1' # others'"
      "relu1 (net s') = (relu1 M)(''W'' \<mapsto> Variable W1', ''b'' \<mapsto> Variable b1')"
    by blast
  from new(1) have "W1' = T2 [[24 / 25, - (26 / 25)], [49 / 25, - (1 / 25)]]"
    by (simp add: old(1) W1 sample_apply_def sample_gradient_def)
  with new(2) show ?thesis by simp
qed

theorem call_leaves_layer_unchanged_witness:
  "snd (call sample_layer (T2 [[1, 2], [3, 4]])) = sample_layer \<and>
   (\<exists>s'. train_step sample_gradient sample_apply (T2 [[1, 2], [3, 4], [0, 0]]) (T2 [[3], [2], [1]])
        sample_trainer = Inr s' \<and>
      relu1 (net s') ''cvxpy_layer'' = relu1 (net sample_trainer) ''cvxpy_layer'' \<and>
      relu2 (net s') ''cvxpy_layer'' = relu2 (net sample_trainer) ''cvxpy_layer'' \<and>
      relu1 (net sample_trainer) ''W'' = Some (Variable (T2 [[1, -1], [2, 0]])) \<and>
      relu1 (net s') ''W'' =
        Some (Variable (T2 [[24 / 25, - (26 / 25)], [49 / 25, - (1 / 25)]]))) \<and>
   (\<exists>s'. train_step sample_gradient (\<lambda>st gvs. (map snd gvs, st)) (T2 [[1, 2], [3, 4], [0, 0]])
        (T2 [[3], [2], [1]]) sample_trainer = Inr s' \<and>
      relu1 (net s') = relu1 (net sample_trainer) \<and> relu2 (net s') = relu2 (net sample_trainer))"
proof -
  let ?X = "T2 [[1, 2], [3, 4], [0, 0]]" and ?Y = "T2 [[3], [2], [1]]"
  have M: "model_ok 2 2 2 (net sample_trainer)"
    by (simp add: sample_trainer_def sample_model_ok)
  have X: "[[1, 2], [3, 4], [0, 0::real]] \<noteq> []"
    "list_all (\<lambda>x. length x = 2) [[1, 2], [3, 4], [0, 0::real]]"
    by simp_all
  have Y: "has_shape [length [[1, 2], [3, 4], [0, 0::real]], 1] ?Y"
    by (simp add: is_mat_def)
  from train_step_ok [OF M keeps_shapes_sample one_per_variable_sample X Y]
  obtain s1 where s1: "train_step sample_gradient sample_apply ?X ?Y sample_trainer = Inr s1"
    by blast
  from train_step_ok [OF M keeps_shapes_same one_per_variable_sample X Y]
  obtain s2 where s2: "train_step sample_gradient (\<lambda>st gvs. (map snd gvs, st)) ?X ?Y sample_trainer = Inr s2"
    by blast
  note step1 = call_leaves_layer_unchanged [where self = sample_layer and x = "T2 [[1, 2], [3, 4]]"
      and X = ?X and gradient = sample_gradient
      and apply_gradients = sample_apply and Y = ?Y and s = sample_trainer]
  note step2 = call_leaves_layer_unchanged [where self = sample_layer and x = "T2 [[1, 2], [3, 4]]"
      and X = ?X and gradient = sample_gradient
      and apply_gradients = "\<lambda>st gvs. (map snd gvs, st)" and Y = ?Y and s = sample_trainer]
  have a: "relu1 (net s1) ''cvxpy_layer'' = relu1 (net sample_trainer) ''cvxpy_layer''"
      "relu2 (net s1) ''cvxpy_layer'' = relu2 (net sample_trainer) ''cvxpy_layer''"
    using step1 s1 by simp_all
  have b: "relu1 (net sample_trainer) ''W'' = Some (Variable (T2 [[1, -1], [2, 0]]))"
    by (simp add: sample_trainer_def sample_model_def Sequential_init_def ReluLayer_init_def)
  have c: "relu1 (net s1) ''W'' = Some (Variable (T2 [[24 / 25, - (26 / 25)], [49 / 25, - (1 / 25)]]))"
    using s1 by (rule sample_step_changes_W)
  have d: "relu1 (net s2) = relu1 (net sample_trainer)" "relu2 (net s2) = relu2 (net sample_trainer)"
    using step2 s2 by simp_all
  from step1 have e: "snd (call sample_layer (T2 [[1, 2], [3, 4]])) = sample_layer"
    by simp
  from s1 a b c s2 d e show ?thesis by blast
qed

section \<open>The recorded run\<close>

lemma recorded_losses_decreasing:
  "length recorded_losses = 25 \<and> successively (\<lambda>a b. b < a) recorded_losses \<and>
   last recorded_losses < hd recorded_losses"
  by (simp add: recorded_losses_def)

end
